theory Spec2Isabelle
  imports Main "HOL-Library.Sublist"
begin

section \<open>Values of the host platform\<close>

text \<open>
  The route handler of \<^verbatim>\<open>src/routeHandlerBuilder.ts\<close> moves JavaScript values between
  the request, the schemas, the middleware and the user's handler. They are modelled by
  the JSON-like values below: \<open>JUndefined\<close> is JavaScript's \<^verbatim>\<open>undefined\<close>, numbers are
  integers, and an object is the list of its own properties in enumeration order (keys
  that look like array indices, which JavaScript enumerates first, are outside the model).
  These are the values of requests and schemas; all of them can be serialised.
\<close>

datatype json =
    JUndefined
  | JNull
  | JBool bool
  | JNum int
  | JStr string
  | JArr "json list"
  | JObj "(string \<times> json) list"

type_synonym object = "(string \<times> json) list"

text \<open>
  A thrown value. The only thing the \<^verbatim>\<open>catch\<close> clause of the route asks of it is
  whether it is an instance of the exported class \<^verbatim>\<open>InternalRouteHandlerError\<close> (an
  \<^verbatim>\<open>Error\<close> with a message); every other thrown value is an \<open>OtherError\<close>.
\<close>

datatype thrown =
    InternalRouteHandlerError string
  | OtherError string

subsection \<open>Property assignment, \<^verbatim>\<open>Object.fromEntries\<close> and object spread\<close>

fun set_property :: "object \<Rightarrow> string \<Rightarrow> json \<Rightarrow> object" where
  "set_property [] k v = [(k, v)]"
| "set_property ((k', v') # ps) k v =
     (if k' = k then (k, v) # ps else (k', v') # set_property ps k v)"

text \<open>\<^verbatim>\<open>{ ...a, ...b }\<close>: the properties of \<open>a\<close>, then each property of \<open>b\<close> assigned in turn.\<close>

definition spread :: "object \<Rightarrow> object \<Rightarrow> object" where
  "spread a b = foldl (\<lambda>obj (k, v). set_property obj k v) a b"

definition fromEntries :: "(string \<times> json) list \<Rightarrow> object" where
  "fromEntries entries = spread [] entries"

subsection \<open>\<^verbatim>\<open>String.prototype.includes\<close>\<close>

fun String_includes :: "string \<Rightarrow> string \<Rightarrow> bool" where
  "String_includes [] sub = (sub = [])"
| "String_includes (c # cs) sub = (prefix sub (c # cs) \<or> String_includes cs sub)"

subsection \<open>\<^verbatim>\<open>JSON.stringify\<close>\<close>

fun digits :: "nat \<Rightarrow> string" where
  "digits n =
     (if n < 10 then [''0123456789'' ! n]
      else digits (n div 10) @ [''0123456789'' ! (n mod 10)])"

declare digits.simps [simp del]

definition hex_digit :: "nat \<Rightarrow> char" where
  "hex_digit n = ''0123456789abcdef'' ! (n mod 16)"

text \<open>
  The escapes of ECMAScript's QuoteJSONString: the quotation mark, the backslash, the five
  short escapes, and \<^verbatim>\<open>\u00XX\<close> for the other control characters.
\<close>

definition quote_char :: "char \<Rightarrow> string" where
  "quote_char c =
     (if c = CHR 0x22 then [CHR 0x5C, CHR 0x22]
      else if c = CHR 0x5C then [CHR 0x5C, CHR 0x5C]
      else if c = CHR 0x08 then [CHR 0x5C, CHR ''b'']
      else if c = CHR 0x0C then [CHR 0x5C, CHR ''f'']
      else if c = CHR 0x0A then [CHR 0x5C, CHR ''n'']
      else if c = CHR 0x0D then [CHR 0x5C, CHR ''r'']
      else if c = CHR 0x09 then [CHR 0x5C, CHR ''t'']
      else if (of_char c :: nat) < 32
        then [CHR 0x5C, CHR ''u'', CHR ''0'', CHR ''0'',
              hex_digit (of_char c div 16), hex_digit (of_char c)]
      else [c])"

definition QuoteJSONString :: "string \<Rightarrow> string" where
  "QuoteJSONString s = [CHR 0x22] @ concat (map quote_char s) @ [CHR 0x22]"

fun join :: "string \<Rightarrow> string list \<Rightarrow> string" where
  "join sep [] = []"
| "join sep [x] = x"
| "join sep (x # y # ys) = x @ sep @ join sep (y # ys)"

text \<open>
  SerializeJSONProperty: inside an array \<^verbatim>\<open>undefined\<close> is written \<^verbatim>\<open>null\<close>, and a
  property whose value is \<^verbatim>\<open>undefined\<close> is left out of its object.
\<close>

fun serialize :: "json \<Rightarrow> string" where
  "serialize JUndefined = ''null''"
| "serialize JNull = ''null''"
| "serialize (JBool b) = (if b then ''true'' else ''false'')"
| "serialize (JNum n) = (if n < 0 then ''-'' @ digits (nat (- n)) else digits (nat n))"
| "serialize (JStr s) = QuoteJSONString s"
| "serialize (JArr xs) = ''['' @ join '','' (map serialize xs) @ '']''"
| "serialize (JObj ps) =
     ''{'' @ join '',''
        (map (\<lambda>(k, v). QuoteJSONString k @ '':'' @ serialize v)
          (filter (\<lambda>(k, v). v \<noteq> JUndefined) ps)) @ ''}''"

text \<open>\<^verbatim>\<open>JSON.stringify(undefined)\<close> is \<^verbatim>\<open>undefined\<close>, here \<open>None\<close>.\<close>

definition JSON_stringify :: "json \<Rightarrow> string option" where
  "JSON_stringify v = (if v = JUndefined then None else Some (serialize v))"

text \<open>
  A handler may return any JavaScript value: one of the values above, or a value that
  \<^verbatim>\<open>JSON.stringify\<close> refuses because it holds a \<^verbatim>\<open>BigInt\<close> or a cycle, on which
  \<^verbatim>\<open>JSON.stringify\<close> throws a \<^verbatim>\<open>TypeError\<close>.
\<close>

datatype returned_value = Plain json | Unserialisable

fun stringify :: "returned_value \<Rightarrow> thrown + string option" where
  "stringify (Plain v) = Inr (JSON_stringify v)"
| "stringify Unserialisable = Inl (OtherError ''TypeError'')"

subsection \<open>Requests and responses\<close>

text \<open>
  What the route reads of a \<^verbatim>\<open>Request\<close>: its method, its \<^verbatim>\<open>content-type\<close> header
  (\<open>None\<close> when \<^verbatim>\<open>headers.get\<close> returns \<^verbatim>\<open>null\<close>), the entries of its URL's search
  parameters, and what awaiting \<^verbatim>\<open>request.json()\<close> and \<^verbatim>\<open>request.formData()\<close>
  gives: a thrown value (\<open>Inl\<close>) or the parsed body. The URL of a \<^verbatim>\<open>Request\<close> is
  absolute and well formed, so \<^verbatim>\<open>new URL(request.url)\<close> has no failing branch.
\<close>

record request =
  "method" :: string
  content_type :: "string option"
  searchParams :: "(string \<times> string) list"
  request_json :: "thrown + json"
  request_formData :: "thrown + (string \<times> json) list"

text \<open>
  The second argument of the route: \<open>None\<close> when \<^verbatim>\<open>context?.params\<close> is missing,
  otherwise the outcome of awaiting the promise.
\<close>

type_synonym route_context = "(thrown + json) option"

text \<open>
  A \<^verbatim>\<open>Response\<close>: its status, its body (\<open>None\<close> for a null body) and the headers
  given to its constructor.
\<close>

record response =
  status :: nat
  body_text :: "string option"
  headers :: "(string \<times> string) list"

definition new_Response :: "string option \<Rightarrow> nat \<Rightarrow> (string \<times> string) list \<Rightarrow> response" where
  "new_Response b s hs = \<lparr>status = s, body_text = b, headers = hs\<rparr>"

section \<open>The builder\<close>

text \<open>
  A schema is used through \<^verbatim>\<open>safeParse\<close> only, which does not throw: it gives the
  issues (\<open>Inl\<close>) or the parsed data (\<open>Inr\<close>). A middleware receives the request and
  the context object so far. It is handed the object itself, not a copy, and may write to
  it; it gives the object as it leaves it, and what its promise settles to: a thrown
  value or a fragment, an object. The function given as \<^verbatim>\<open>handleServerError\<close> returns
  a response or throws in its turn.
\<close>

type_synonym schema = "json \<Rightarrow> json list + json"

type_synonym middleware = "request \<Rightarrow> object \<Rightarrow> object \<times> (thrown + object)"

type_synonym handler_server_error_fn = "thrown \<Rightarrow> thrown + response"

record config =
  paramsSchema :: "schema option"
  querySchema :: "schema option"
  bodySchema :: "schema option"

text \<open>
  Builders, their config objects and their middleware arrays are JavaScript objects, and a
  new builder made by \<^verbatim>\<open>{ ...this, ... }\<close> shares with the old one every field that is
  not replaced. The store is a list of cells, a reference is an index into it, and a new
  object takes the next free index. The fields \<^verbatim>\<open>contextType\<close> and
  \<^verbatim>\<open>metadataValue\<close> carry types only and are left out.
\<close>

type_synonym ref = nat

record builder_object =
  config_ref :: ref
  middlewares_ref :: ref
  handleServerError_field :: "handler_server_error_fn option"

datatype cell =
    ConfigCell config
  | ArrayCell "middleware list"
  | BuilderCell builder_object

type_synonym heap = "cell list"

definition alloc :: "heap \<Rightarrow> cell \<Rightarrow> ref \<times> heap" where
  "alloc h c = (length h, h @ [c])"

definition get_builder :: "heap \<Rightarrow> ref \<Rightarrow> builder_object option" where
  "get_builder h r =
     (if r < length h then (case h ! r of BuilderCell b \<Rightarrow> Some b | _ \<Rightarrow> None) else None)"

definition get_config :: "heap \<Rightarrow> ref \<Rightarrow> config option" where
  "get_config h r =
     (if r < length h then (case h ! r of ConfigCell c \<Rightarrow> Some c | _ \<Rightarrow> None) else None)"

definition get_array :: "heap \<Rightarrow> ref \<Rightarrow> middleware list option" where
  "get_array h r =
     (if r < length h then (case h ! r of ArrayCell ms \<Rightarrow> Some ms | _ \<Rightarrow> None) else None)"

text \<open>
  The constructor: a missing \<^verbatim>\<open>config\<close> defaults to a fresh object without schemas, a
  missing \<^verbatim>\<open>middlewares\<close> to a fresh empty array.
\<close>

definition RouteHandlerBuilder ::
  "ref option \<Rightarrow> ref option \<Rightarrow> handler_server_error_fn option \<Rightarrow> heap \<Rightarrow> ref \<times> heap" where
  "RouteHandlerBuilder config_arg middlewares_arg handleServerError_arg h =
     (let (c, h1) = (case config_arg of
                       Some c \<Rightarrow> (c, h)
                     | None \<Rightarrow> alloc h (ConfigCell
                         \<lparr>paramsSchema = None, querySchema = None, bodySchema = None\<rparr>));
          (m, h2) = (case middlewares_arg of
                       Some m \<Rightarrow> (m, h1)
                     | None \<Rightarrow> alloc h1 (ArrayCell []))
      in alloc h2 (BuilderCell
           \<lparr>config_ref = c, middlewares_ref = m,
            handleServerError_field = handleServerError_arg\<rparr>))"

definition params :: "schema \<Rightarrow> ref \<Rightarrow> heap \<Rightarrow> (ref \<times> heap) option" where
  "params schema this h =
     (case get_builder h this of None \<Rightarrow> None | Some b \<Rightarrow>
      (case get_config h (config_ref b) of None \<Rightarrow> None | Some c \<Rightarrow>
        (let (c', h1) = alloc h (ConfigCell (c\<lparr>paramsSchema := Some schema\<rparr>))
         in Some (RouteHandlerBuilder (Some c') (Some (middlewares_ref b))
                    (handleServerError_field b) h1))))"

definition query :: "schema \<Rightarrow> ref \<Rightarrow> heap \<Rightarrow> (ref \<times> heap) option" where
  "query schema this h =
     (case get_builder h this of None \<Rightarrow> None | Some b \<Rightarrow>
      (case get_config h (config_ref b) of None \<Rightarrow> None | Some c \<Rightarrow>
        (let (c', h1) = alloc h (ConfigCell (c\<lparr>querySchema := Some schema\<rparr>))
         in Some (RouteHandlerBuilder (Some c') (Some (middlewares_ref b))
                    (handleServerError_field b) h1))))"

definition body :: "schema \<Rightarrow> ref \<Rightarrow> heap \<Rightarrow> (ref \<times> heap) option" where
  "body schema this h =
     (case get_builder h this of None \<Rightarrow> None | Some b \<Rightarrow>
      (case get_config h (config_ref b) of None \<Rightarrow> None | Some c \<Rightarrow>
        (let (c', h1) = alloc h (ConfigCell (c\<lparr>bodySchema := Some schema\<rparr>))
         in Some (RouteHandlerBuilder (Some c') (Some (middlewares_ref b))
                    (handleServerError_field b) h1))))"

definition use :: "middleware \<Rightarrow> ref \<Rightarrow> heap \<Rightarrow> (ref \<times> heap) option" where
  "use middleware this h =
     (case get_builder h this of None \<Rightarrow> None | Some b \<Rightarrow>
      (case get_array h (middlewares_ref b) of None \<Rightarrow> None | Some ms \<Rightarrow>
        (let (m', h1) = alloc h (ArrayCell (ms @ [middleware]))
         in Some (RouteHandlerBuilder (Some (config_ref b)) (Some m')
                    (handleServerError_field b) h1))))"

text \<open>
  The state of a builder as the route reads it: \<^verbatim>\<open>this.config\<close>,
  \<^verbatim>\<open>this.middlewares\<close> and \<^verbatim>\<open>this.handleServerError\<close>, followed through the store.
  The route made by \<^verbatim>\<open>handler\<close> reads these fields at each request; no operation
  writes to an object of the store once it is made, so the route is a function of this
  state.
\<close>

record builder =
  config :: config
  middlewares :: "middleware list"
  handleServerError :: "handler_server_error_fn option"

definition builder_of :: "heap \<Rightarrow> ref \<Rightarrow> builder option" where
  "builder_of h this =
     (case get_builder h this of None \<Rightarrow> None | Some b \<Rightarrow>
      (case get_config h (config_ref b) of None \<Rightarrow> None | Some c \<Rightarrow>
       (case get_array h (middlewares_ref b) of None \<Rightarrow> None | Some ms \<Rightarrow>
          Some \<lparr>config = c, middlewares = ms,
                handleServerError = handleServerError_field b\<rparr>)))"

section \<open>The route\<close>

text \<open>
  The user's handler receives the request and \<^verbatim>\<open>{ params, query, body, data }\<close>; it
  throws, returns a \<^verbatim>\<open>Response\<close>, or returns any other value.
\<close>

record handler_context =
  ctx_params :: json
  ctx_query :: json
  ctx_body :: json
  ctx_data :: object

datatype handler_result =
    Throws thrown
  | ReturnsResponse response
  | ReturnsValue returned_value

type_synonym handler_function = "request \<Rightarrow> handler_context \<Rightarrow> handler_result"

text \<open>
  A run of the route is observed through the calls it makes, in order: the reads of the
  request body, the schemas it runs, and the functions of the user it invokes, each with
  the argument it is given.
\<close>

datatype slot = Params | Query | Body

datatype event =
    AwaitParams
  | ReadFormData
  | ReadJson
  | SafeParse slot json
  | CallMiddleware nat object
  | CallHandler handler_context
  | CallHandleServerError thrown

text \<open>A stage yields the calls it made and either the value thrown or its result.\<close>

type_synonym 'a stage = "event list \<times> (thrown + 'a)"

definition and_then :: "'a stage \<Rightarrow> ('a \<Rightarrow> 'b stage) \<Rightarrow> 'b stage" where
  "and_then m f =
     (case m of
        (tr, Inl e) \<Rightarrow> (tr, Inl e)
      | (tr, Inr x) \<Rightarrow> (case f x of (tr', r) \<Rightarrow> (tr @ tr', r)))"

text \<open>\<^verbatim>\<open>context?.params ? await context.params : {}\<close>\<close>

definition await_params :: "route_context \<Rightarrow> json stage" where
  "await_params context =
     (case context of None \<Rightarrow> ([], Inr (JObj [])) | Some p \<Rightarrow> ([AwaitParams], p))"

text \<open>\<^verbatim>\<open>Object.fromEntries(url.searchParams.entries())\<close>\<close>

definition parse_query :: "request \<Rightarrow> json" where
  "parse_query request =
     JObj (fromEntries (map (\<lambda>(k, v). (k, JStr v)) (searchParams request)))"

definition parse_body :: "request \<Rightarrow> json stage" where
  "parse_body request =
     (if method request \<noteq> ''GET'' \<and> method request \<noteq> ''DELETE'' then
        (let contentType = (case content_type request of None \<Rightarrow> '''' | Some s \<Rightarrow> s) in
         if String_includes contentType ''multipart/form-data'' \<or>
            String_includes contentType ''application/x-www-form-urlencoded''
         then ([ReadFormData],
               case request_formData request of
                 Inl e \<Rightarrow> Inl e
               | Inr formData \<Rightarrow> Inr (JObj (fromEntries formData)))
         else ([ReadJson], request_json request))
      else ([], Inr (JObj [])))"

text \<open>The message of \<^verbatim>\<open>new Error(m)\<close>, empty when \<open>m\<close> is \<^verbatim>\<open>undefined\<close>.\<close>

definition error_message :: "string option \<Rightarrow> string" where
  "error_message m = (case m of None \<Rightarrow> '''' | Some s \<Rightarrow> s)"

text \<open>
  One validation block: without a schema the value goes on as it is; otherwise the schema
  runs, and its issues are thrown inside an \<^verbatim>\<open>InternalRouteHandlerError\<close> whose message
  is the JSON text of \<^verbatim>\<open>{ message, errors }\<close>, or its data replace the value.
\<close>

definition validate :: "slot \<Rightarrow> string \<Rightarrow> schema option \<Rightarrow> json \<Rightarrow> json stage" where
  "validate sl message schema v =
     (case schema of
        None \<Rightarrow> ([], Inr v)
      | Some safeParse \<Rightarrow>
          ([SafeParse sl v],
           case safeParse v of
             Inl issues \<Rightarrow>
               Inl (InternalRouteHandlerError (error_message (JSON_stringify
                 (JObj [(''message'', JStr message), (''errors'', JArr issues)]))))
           | Inr data \<Rightarrow> Inr data))"

text \<open>
  The loop over \<^verbatim>\<open>this.middlewares\<close>; \<open>i\<close> counts the middleware already run. The
  spread \<^verbatim>\<open>{ ...middlewareContext, ...result }\<close> reads the context object after the
  middleware has run, with what the middleware wrote to it.
\<close>

fun run_middlewares :: "middleware list \<Rightarrow> request \<Rightarrow> nat \<Rightarrow> object \<Rightarrow> object stage" where
  "run_middlewares [] request i middlewareContext = ([], Inr middlewareContext)"
| "run_middlewares (middleware # rest) request i middlewareContext =
     and_then
       ([CallMiddleware i middlewareContext], snd (middleware request middlewareContext))
       (\<lambda>result. run_middlewares rest request (Suc i)
          (spread (fst (middleware request middlewareContext)) result))"

definition call_handler :: "handler_function \<Rightarrow> request \<Rightarrow> handler_context \<Rightarrow> response stage" where
  "call_handler fn request ctx =
     ([CallHandler ctx],
      case fn request ctx of
        Throws e \<Rightarrow> Inl e
      | ReturnsResponse r \<Rightarrow> Inr r
      | ReturnsValue result \<Rightarrow>
          (case stringify result of
             Inl e \<Rightarrow> Inl e
           | Inr text \<Rightarrow>
               Inr (new_Response text 200 [(''Content-Type'', ''application/json'')])))"

text \<open>
  The body of the \<^verbatim>\<open>try\<close> block, in its stages. Extraction: the params are awaited,
  the query is read off the URL, the body is parsed.
\<close>

definition extraction :: "request \<Rightarrow> route_context \<Rightarrow> (json \<times> json \<times> json) stage" where
  "extraction request context =
     and_then (await_params context) (\<lambda>params0.
     and_then (parse_body request) (\<lambda>body0.
       ([], Inr (params0, parse_query request, body0))))"

text \<open>Validation: the three blocks, one after the other.\<close>

definition validation :: "config \<Rightarrow> json \<Rightarrow> json \<Rightarrow> json \<Rightarrow> (json \<times> json \<times> json) stage" where
  "validation cfg params0 query0 body0 =
     and_then (validate Params ''Invalid params'' (paramsSchema cfg) params0) (\<lambda>params1.
     and_then (validate Query ''Invalid query'' (querySchema cfg) query0) (\<lambda>query1.
     and_then (validate Body ''Invalid body'' (bodySchema cfg) body0) (\<lambda>body1.
       ([], Inr (params1, query1, body1)))))"

definition try_block ::
  "builder \<Rightarrow> handler_function \<Rightarrow> request \<Rightarrow> route_context \<Rightarrow> response stage" where
  "try_block this fn request context =
     and_then (extraction request context) (\<lambda>(params0, query0, body0).
     and_then (validation (config this) params0 query0 body0) (\<lambda>(params1, query1, body1).
     and_then (run_middlewares (middlewares this) request 0 []) (\<lambda>middlewareContext.
       call_handler fn request
         \<lparr>ctx_params = params1, ctx_query = query1, ctx_body = body1,
          ctx_data = middlewareContext\<rparr>)))"

text \<open>
  The route made by \<^verbatim>\<open>handler(fn)\<close>: the \<^verbatim>\<open>try\<close> block, and the \<^verbatim>\<open>catch\<close> clause on
  what it threw. The result is the response the promise resolves to, or \<open>Inl\<close> when the
  configured \<^verbatim>\<open>handleServerError\<close> throws in its turn.
\<close>

definition handler ::
  "builder \<Rightarrow> handler_function \<Rightarrow> request \<Rightarrow> route_context \<Rightarrow> response stage" where
  "handler this fn request context =
     (case try_block this fn request context of
        (tr, Inr r) \<Rightarrow> (tr, Inr r)
      | (tr, Inl error) \<Rightarrow>
          (case error of
             InternalRouteHandlerError message \<Rightarrow> (tr, Inr (new_Response (Some message) 400 []))
           | OtherError x \<Rightarrow>
               (case handleServerError this of
                  Some f \<Rightarrow> (tr @ [CallHandleServerError error], f error)
                | None \<Rightarrow>
                    (tr, Inr (new_Response
                       (JSON_stringify (JObj [(''message'', JStr ''Internal server error'')]))
                       500 [])))))"

section \<open>Vocabulary for the properties\<close>

text \<open>
  A slot's schema accepts a value and gives another, or rejects it with issues. A slot
  without a schema neither rejects nor changes the value.
\<close>

definition accepts :: "schema option \<Rightarrow> json \<Rightarrow> json \<Rightarrow> bool" where
  "accepts schema v v' =
     (case schema of None \<Rightarrow> v' = v | Some safeParse \<Rightarrow> safeParse v = Inr v')"

definition rejects :: "schema option \<Rightarrow> json \<Rightarrow> json list \<Rightarrow> bool" where
  "rejects schema v issues =
     (case schema of None \<Rightarrow> False | Some safeParse \<Rightarrow> safeParse v = Inl issues)"

text \<open>The schema calls a slot's validation makes: one if the slot has a schema, else none.\<close>

definition validation_calls :: "slot \<Rightarrow> schema option \<Rightarrow> json \<Rightarrow> event list" where
  "validation_calls sl schema v = (case schema of None \<Rightarrow> [] | Some safeParse \<Rightarrow> [SafeParse sl v])"

fun slot_schema :: "slot \<Rightarrow> config \<Rightarrow> schema option" where
  "slot_schema Params cfg = paramsSchema cfg"
| "slot_schema Query cfg = querySchema cfg"
| "slot_schema Body cfg = bodySchema cfg"

fun slot_message :: "slot \<Rightarrow> string" where
  "slot_message Params = ''Invalid params''"
| "slot_message Query = ''Invalid query''"
| "slot_message Body = ''Invalid body''"

text \<open>
  The validation-error response: status 400, and as body the text
  \<^verbatim>\<open>{"message":<message>,"errors":[<issues>]}\<close>.
\<close>

definition validation_error_response :: "string \<Rightarrow> json list \<Rightarrow> response" where
  "validation_error_response message issues =
     \<lparr>status = 400,
      body_text = Some (''{\"message\":'' @ QuoteJSONString message @ '',\"errors\":['' @
                         join '','' (map serialize issues) @ '']}''),
      headers = []\<rparr>"

text \<open>The default internal-error response.\<close>

definition internal_server_error_response :: response where
  "internal_server_error_response =
     \<lparr>status = 500, body_text = Some ''{\"message\":\"Internal server error\"}'', headers = []\<rparr>"

text \<open>
  A run that handled the thrown value \<open>e\<close> as a server error: with a
  \<^verbatim>\<open>handleServerError\<close> configured, that function was called with \<open>e\<close> and the route
  resolves to what it gave; without one, the route resolves to the default response and no
  such call was made.
\<close>

definition handled_as_server_error :: "builder \<Rightarrow> response stage \<Rightarrow> thrown \<Rightarrow> bool" where
  "handled_as_server_error this run e =
     (case handleServerError this of
        Some f \<Rightarrow> snd run = f e \<and> CallHandleServerError e \<in> set (fst run)
      | None \<Rightarrow> snd run = Inr internal_server_error_response \<and>
          CallHandleServerError e \<notin> set (fst run))"

text \<open>
  The context of the middleware chain after its first \<open>n\<close> middleware, from the context
  \<open>c\<close>: the fragment of each middleware is spread over the context object as that
  middleware left it. The context before the \<open>n\<close>-th middleware (counting from 0) of a
  route starts from the empty object.
\<close>

fun merged_from :: "object \<Rightarrow> middleware list \<Rightarrow> request \<Rightarrow> nat \<Rightarrow> object" where
  "merged_from c ms request 0 = c"
| "merged_from c ms request (Suc n) =
     (if n < length ms then
        (case snd ((ms ! n) request (merged_from c ms request n)) of
           Inr fragment \<Rightarrow>
             spread (fst ((ms ! n) request (merged_from c ms request n))) fragment
         | Inl e \<Rightarrow> merged_from c ms request n)
      else merged_from c ms request n)"

declare merged_from.simps(2) [simp del]

definition context_before :: "middleware list \<Rightarrow> request \<Rightarrow> nat \<Rightarrow> object" where
  "context_before ms request n = merged_from [] ms request n"

section \<open>Example routes\<close>

text \<open>
  Schemas, middleware, handlers and requests in the manner of the repository's tests, on
  which the properties below are exercised.
\<close>

definition issue :: "string \<Rightarrow> json" where
  "issue path = JObj [(''code'', JStr ''invalid_type''), (''path'', JArr [JStr path])]"

text \<open>In the manner of \<^verbatim>\<open>z.object({ k: z.string() })\<close>: the string field alone is kept.\<close>

definition string_field_schema :: "string \<Rightarrow> schema" where
  "string_field_schema k v =
     (case v of
        JObj ps \<Rightarrow>
          (case map_of ps k of
             Some (JStr s) \<Rightarrow> Inr (JObj [(k, JStr s)])
           | _ \<Rightarrow> Inl [issue k])
      | _ \<Rightarrow> Inl [issue k])"

text \<open>In the manner of \<^verbatim>\<open>z.object({ k: z.string().default(d) })\<close>.\<close>

definition default_field_schema :: "string \<Rightarrow> string \<Rightarrow> schema" where
  "default_field_schema k d v =
     (case v of
        JObj ps \<Rightarrow>
          (case map_of ps k of
             None \<Rightarrow> Inr (JObj [(k, JStr d)])
           | Some (JStr s) \<Rightarrow> Inr (JObj [(k, JStr s)])
           | _ \<Rightarrow> Inl [issue k])
      | _ \<Rightarrow> Inl [issue k])"

definition no_schemas :: config where
  "no_schemas = \<lparr>paramsSchema = None, querySchema = None, bodySchema = None\<rparr>"

definition all_schemas :: config where
  "all_schemas =
     \<lparr>paramsSchema = Some (string_field_schema ''id''),
      querySchema = Some (string_field_schema ''search''),
      bodySchema = Some (string_field_schema ''field'')\<rparr>"

definition middleware_x1 :: middleware where
  "middleware_x1 request context = (context, Inr [(''x'', JNum 1)])"

definition middleware_x2_y3 :: middleware where
  "middleware_x2_y3 request context = (context, Inr [(''x'', JNum 2), (''y'', JNum 3)])"

text \<open>A middleware that sets \<^verbatim>\<open>context.seen = true\<close> and returns \<^verbatim>\<open>{}\<close>.\<close>

definition middleware_writes_seen :: middleware where
  "middleware_writes_seen request context =
     (set_property context ''seen'' (JBool True), Inr [])"

definition middleware_throws :: middleware where
  "middleware_throws request context = (context, Inl (OtherError ''Unauthorized''))"

definition middleware_throws_internal :: middleware where
  "middleware_throws_internal request context =
     (context, Inl (InternalRouteHandlerError ''denied''))"

definition echo_handler :: handler_function where
  "echo_handler request ctx =
     ReturnsValue (Plain (JObj [(''params'', ctx_params ctx), (''query'', ctx_query ctx),
                                (''body'', ctx_body ctx), (''data'', JObj (ctx_data ctx))]))"

text \<open>A handler that returns \<^verbatim>\<open>{ id: 10n }\<close>.\<close>

definition bigint_handler :: handler_function where
  "bigint_handler request ctx = ReturnsValue Unserialisable"

definition created_response :: response where
  "created_response =
     \<lparr>status = 201, body_text = Some ''{\"custom\":\"response\"}'',
      headers = [(''X-Custom-Header'', ''test'')]\<rparr>"

definition response_handler :: handler_function where
  "response_handler request ctx = ReturnsResponse created_response"

definition throwing_handler :: handler_function where
  "throwing_handler request ctx = Throws (OtherError ''CustomError'')"

definition throwing_internal_handler :: handler_function where
  "throwing_internal_handler request ctx = Throws (InternalRouteHandlerError ''teapot'')"

definition custom_handleServerError :: handler_server_error_fn where
  "custom_handleServerError error =
     Inr \<lparr>status = 418, body_text = Some ''{\"message\":\"Something went wrong\"}'',
          headers = []\<rparr>"

definition get_request :: request where
  "get_request =
     \<lparr>method = ''GET'', content_type = Some ''application/json'',
      searchParams = [(''search'', ''test'')],
      request_json = Inl (OtherError ''SyntaxError''),
      request_formData = Inl (OtherError ''TypeError'')\<rparr>"

definition delete_request :: request where
  "delete_request = get_request\<lparr>method := ''DELETE''\<rparr>"

definition post_json_request :: request where
  "post_json_request =
     \<lparr>method = ''POST'', content_type = None,
      searchParams = [(''search'', ''test'')],
      request_json = Inr (JObj [(''field'', JStr ''test-field''), (''extra'', JNum 1)]),
      request_formData = Inl (OtherError ''TypeError'')\<rparr>"


definition post_malformed_request :: request where
  "post_malformed_request =
     \<lparr>method = ''POST'', content_type = Some ''application/json'',
      searchParams = [(''search'', ''test'')],
      request_json = Inl (OtherError ''SyntaxError''),
      request_formData = Inl (OtherError ''TypeError'')\<rparr>"

definition valid_params :: route_context where
  "valid_params = Some (Inr (JObj [(''id'', JStr ''550e8400''), (''other'', JNull)]))"

definition invalid_params :: route_context where
  "invalid_params = Some (Inr (JObj [(''id'', JNum 7)]))"

definition all_schemas_route :: builder where
  "all_schemas_route = \<lparr>config = all_schemas, middlewares = [], handleServerError = None\<rparr>"

definition plain_route :: builder where
  "plain_route = \<lparr>config = no_schemas, middlewares = [], handleServerError = None\<rparr>"

text \<open>The store after \<^verbatim>\<open>new RouteHandlerBuilder({ handleServerError })\<close>: the builder is at 2.\<close>

definition example_store :: heap where
  "example_store = snd (RouteHandlerBuilder None None (Some custom_handleServerError) [])"

section \<open>Objects, strings and the error bodies\<close>

lemma and_then_Inl [simp]: "and_then (tr, Inl e) f = (tr, Inl e)"
  by (simp add: and_then_def)

lemma and_then_Inr [simp]: "and_then (tr, Inr x) f = (tr @ fst (f x), snd (f x))"
  by (simp add: and_then_def split: prod.splits)

lemma and_then_fst:
  "x \<in> set (fst (and_then m f)) \<Longrightarrow>
     x \<in> set (fst m) \<or> (\<exists>y. snd m = Inr y \<and> x \<in> set (fst (f y)))"
  by (cases m; cases "snd m") (auto simp: and_then_def split: prod.splits)

lemma map_of_set_property: "map_of (set_property ps k v) = (map_of ps)(k \<mapsto> v)"
  by (induction ps k v rule: set_property.induct) auto

lemma map_of_spread: "map_of (spread a b) = map_of a ++ map_of (rev b)"
  unfolding spread_def
proof (induction b arbitrary: a)
  case Nil
  show ?case by simp
next
  case (Cons p b)
  obtain k v where p: "p = (k, v)" by (cases p)
  have "foldl (\<lambda>obj (k, v). set_property obj k v) a (p # b) =
        foldl (\<lambda>obj (k, v). set_property obj k v) (set_property a k v) b"
    by (simp add: p)
  also have "map_of \<dots> = map_of (set_property a k v) ++ map_of (rev b)"
    by (rule Cons.IH)
  also have "\<dots> = (map_of a ++ [k \<mapsto> v]) ++ map_of (rev b)"
    by (simp only: map_of_set_property map_add_upd map_add_empty)
  also have "\<dots> = map_of a ++ map_of (rev (p # b))"
    by (simp add: p map_add_assoc)
  finally show ?case .
qed

lemma map_of_rev_distinct: "distinct (map fst xs) \<Longrightarrow> map_of (rev xs) = map_of xs"
proof (induction xs)
  case Nil
  show ?case by simp
next
  case (Cons p xs)
  then have "fst p \<notin> dom (map_of xs)"
    by (simp add: dom_map_of_conv_image_fst)
  then have "map_of xs (fst p) = None"
    by blast
  with Cons show ?case
    by (cases p) (auto simp: map_add_def fun_eq_iff split: option.splits)
qed

lemma map_of_spread_distinct:
  "distinct (map fst b) \<Longrightarrow> map_of (spread a b) = map_of a ++ map_of b"
  by (simp add: map_of_spread map_of_rev_distinct)

lemma keys_set_property: "fst ` set (set_property ps k v) = insert k (fst ` set ps)"
  by (induction ps k v rule: set_property.induct) auto

lemma distinct_set_property:
  "distinct (map fst ps) \<Longrightarrow> distinct (map fst (set_property ps k v))"
proof (induction ps k v rule: set_property.induct)
  case (1 k v)
  show ?case by simp
next
  case (2 k' v' ps k v)
  then show ?case
    using keys_set_property [of ps k v] by auto
qed

lemma distinct_spread:
  "distinct (map fst a) \<Longrightarrow> distinct (map fst (spread a b))"
  unfolding spread_def
  by (induction b arbitrary: a) (auto simp: distinct_set_property)


lemma QuoteJSONString_message: "QuoteJSONString ''message'' = ''\"message\"''"
  by (simp add: QuoteJSONString_def quote_char_def)

lemma QuoteJSONString_errors: "QuoteJSONString ''errors'' = ''\"errors\"''"
  by (simp add: QuoteJSONString_def quote_char_def)

lemma thrown_validation_error:
  "new_Response (Some (error_message (JSON_stringify
       (JObj [(''message'', JStr message), (''errors'', JArr issues)])))) 400 [] =
   validation_error_response message issues"
  by (simp add: new_Response_def error_message_def JSON_stringify_def
        validation_error_response_def QuoteJSONString_message QuoteJSONString_errors)

lemma default_error:
  "new_Response (JSON_stringify (JObj [(''message'', JStr ''Internal server error'')])) 500 [] =
   internal_server_error_response"
  by (simp add: new_Response_def JSON_stringify_def internal_server_error_response_def
        QuoteJSONString_def quote_char_def)

section \<open>The middleware loop\<close>

lemma run_middlewares_events:
  "x \<in> set (fst (run_middlewares ms request i c)) \<Longrightarrow> \<exists>j c'. x = CallMiddleware j c'"
proof (induction ms arbitrary: i c)
  case Nil
  then show ?case by simp
next
  case (Cons m ms)
  show ?case
  proof (cases "snd (m request c)")
    case (Inl e)
    with Cons.prems show ?thesis by simp
  next
    case (Inr frag)
    with Cons.prems Cons.IH show ?thesis by auto
  qed
qed

lemma run_middlewares_no_call:
  "CallHandler hc \<notin> set (fst (run_middlewares ms request i c))"
  "SafeParse sl v \<notin> set (fst (run_middlewares ms request i c))"
  "CallHandleServerError e \<notin> set (fst (run_middlewares ms request i c))"
  "ReadJson \<notin> set (fst (run_middlewares ms request i c))"
  "ReadFormData \<notin> set (fst (run_middlewares ms request i c))"
  using run_middlewares_events [of _ ms request i c] by fastforce+

lemma merged_from_Cons:
  "snd (m request c) = Inr fragment \<Longrightarrow>
   merged_from c (m # ms) request (Suc n) =
     merged_from (spread (fst (m request c)) fragment) ms request n"
proof (induction n)
  case 0
  then show ?case by (simp add: merged_from.simps(2))
next
  case (Suc n)
  let ?c = "spread (fst (m request c)) fragment"
  have l: "merged_from c (m # ms) request (Suc (Suc n)) =
     (if Suc n < length (m # ms) then
        (case snd (((m # ms) ! Suc n) request (merged_from c (m # ms) request (Suc n))) of
           Inr fragment \<Rightarrow>
             spread (fst (((m # ms) ! Suc n) request (merged_from c (m # ms) request (Suc n))))
               fragment
         | Inl e \<Rightarrow> merged_from c (m # ms) request (Suc n))
      else merged_from c (m # ms) request (Suc n))"
    by (rule merged_from.simps(2))
  have r: "merged_from ?c ms request (Suc n) =
     (if n < length ms then
        (case snd ((ms ! n) request (merged_from ?c ms request n)) of
           Inr fragment' \<Rightarrow> spread (fst ((ms ! n) request (merged_from ?c ms request n))) fragment'
         | Inl e \<Rightarrow> merged_from ?c ms request n)
      else merged_from ?c ms request n)"
    by (rule merged_from.simps(2))
  show ?case
    unfolding l r Suc.IH [OF Suc.prems] nth_Cons_Suc by simp
qed

lemma run_middlewares_trace:
  assumes "run_middlewares ms request i c = (tr, r)"
  shows "length tr \<le> length ms \<and>
         (\<forall>n<length tr. tr ! n = CallMiddleware (i + n) (merged_from c ms request n)) \<and>
         (\<forall>d. r = Inr d \<longrightarrow> length tr = length ms \<and> d = merged_from c ms request (length ms))"
  using assms
proof (induction ms arbitrary: i c tr r)
  case Nil
  then show ?case by auto
next
  case (Cons m ms)
  show ?case
  proof (cases "snd (m request c)")
    case (Inl e)
    with Cons.prems show ?thesis by auto
  next
    case (Inr fragment)
    let ?c = "spread (fst (m request c)) fragment"
    obtain tr' r' where rest: "run_middlewares ms request (Suc i) ?c = (tr', r')"
      by (cases "run_middlewares ms request (Suc i) ?c")
    have tr: "tr = CallMiddleware i c # tr'" and r: "r = r'"
      using Cons.prems Inr rest by simp_all
    note IH = Cons.IH [OF rest]
    have shift: "merged_from c (m # ms) request (Suc n) = merged_from ?c ms request n" for n
      using Inr by (rule merged_from_Cons [of m request c fragment])
    have "tr ! n = CallMiddleware (i + n) (merged_from c (m # ms) request n)"
      if "n < length tr" for n
    proof (cases n)
      case 0
      then show ?thesis by (simp add: tr)
    next
      case (Suc k)
      with that tr have "k < length tr'" by simp
      with IH have "tr' ! k = CallMiddleware (Suc i + k) (merged_from ?c ms request k)"
        by blast
      then show ?thesis
        by (simp add: tr Suc shift)
    qed
    moreover have "length tr \<le> length (m # ms)"
      using IH by (simp add: tr)
    moreover have "length tr = length (m # ms) \<and> d = merged_from c (m # ms) request (length (m # ms))"
      if "r = Inr d" for d
      using IH that r by (simp add: tr shift)
    ultimately show ?thesis by blast
  qed
qed

text \<open>Every middleware is called unless one before it throws.\<close>

lemma run_middlewares_progress:
  assumes "n < length ms"
    and "\<forall>j<n. \<not> isl (snd ((ms ! j) request (merged_from c ms request j)))"
  shows "n < length (fst (run_middlewares ms request i c))"
  using assms
proof (induction ms arbitrary: i c n)
  case Nil
  then show ?case by simp
next
  case (Cons m ms)
  show ?case
  proof (cases n)
    case 0
    then show ?thesis
      by (cases "snd (m request c)") simp_all
  next
    case (Suc k)
    with Cons.prems(2) have "\<not> isl (snd (((m # ms) ! 0) request (merged_from c (m # ms) request 0)))"
      by blast
    then obtain fragment where f: "snd (m request c) = Inr fragment"
      by (cases "snd (m request c)") simp_all
    let ?c = "spread (fst (m request c)) fragment"
    have shift: "merged_from c (m # ms) request (Suc j) = merged_from ?c ms request j" for j
      using f by (rule merged_from_Cons [of m request c fragment])
    have "\<not> isl (snd ((ms ! j) request (merged_from ?c ms request j)))" if "j < k" for j
    proof -
      from that Suc have "Suc j < n" by simp
      with Cons.prems(2)
      have "\<not> isl (snd (((m # ms) ! Suc j) request (merged_from c (m # ms) request (Suc j))))"
        by blast
      then show ?thesis by (simp add: shift)
    qed
    moreover from Cons.prems(1) Suc have "k < length ms" by simp
    ultimately have "k < length (fst (run_middlewares ms request (Suc i) ?c))"
      using Cons.IH [of k ?c "Suc i"] by blast
    then show ?thesis
      by (simp add: f Suc)
  qed
qed

text \<open>The loop ends at the first middleware that throws, with what it threw.\<close>

lemma run_middlewares_stop:
  assumes "n < length (fst (run_middlewares ms request i c))"
    and "snd ((ms ! n) request (merged_from c ms request n)) = Inl e"
  shows "length (fst (run_middlewares ms request i c)) = Suc n \<and>
         snd (run_middlewares ms request i c) = Inl e"
  using assms
proof (induction ms arbitrary: i c n)
  case Nil
  then show ?case by simp
next
  case (Cons m ms)
  show ?case
  proof (cases "snd (m request c)")
    case (Inl e')
    with Cons.prems(1) have "n = 0" by simp
    with Cons.prems(2) Inl show ?thesis by simp
  next
    case (Inr fragment)
    let ?c = "spread (fst (m request c)) fragment"
    have shift: "merged_from c (m # ms) request (Suc j) = merged_from ?c ms request j" for j
      using Inr by (rule merged_from_Cons [of m request c fragment])
    from Cons.prems(2) Inr obtain k where k: "n = Suc k"
      by (cases n) auto
    with Cons.prems(1) have "k < length (fst (run_middlewares ms request (Suc i) ?c))"
      by (simp add: Inr)
    moreover from Cons.prems(2) k
    have "snd ((ms ! k) request (merged_from ?c ms request k)) = Inl e"
      by (simp add: shift)
    ultimately have "length (fst (run_middlewares ms request (Suc i) ?c)) = Suc k \<and>
         snd (run_middlewares ms request (Suc i) ?c) = Inl e"
      by (rule Cons.IH)
    then show ?thesis
      by (simp add: Inr k)
  qed
qed

lemma run_middlewares_completes:
  assumes "\<forall>j<length ms. \<not> isl (snd ((ms ! j) request (merged_from c ms request j)))"
  shows "snd (run_middlewares ms request i c) = Inr (merged_from c ms request (length ms))"
  using assms
proof (induction ms arbitrary: i c)
  case Nil
  then show ?case by simp
next
  case (Cons m ms)
  from Cons.prems
  have "\<not> isl (snd (((m # ms) ! 0) request (merged_from c (m # ms) request 0)))"
    by blast
  then obtain fragment where f: "snd (m request c) = Inr fragment"
    by (cases "snd (m request c)") simp_all
  let ?c = "spread (fst (m request c)) fragment"
  have shift: "merged_from c (m # ms) request (Suc j) = merged_from ?c ms request j" for j
    using f by (rule merged_from_Cons [of m request c fragment])
  have "\<not> isl (snd ((ms ! j) request (merged_from ?c ms request j)))" if "j < length ms" for j
  proof -
    from that have "Suc j < length (m # ms)" by simp
    with Cons.prems
    have "\<not> isl (snd (((m # ms) ! Suc j) request (merged_from c (m # ms) request (Suc j))))"
      by blast
    then show ?thesis by (simp add: shift)
  qed
  then have "snd (run_middlewares ms request (Suc i) ?c) = Inr (merged_from ?c ms request (length ms))"
    using Cons.IH [of ?c "Suc i"] by blast
  then show ?case
    by (simp add: f shift)
qed

lemma not_isl_iff: "\<not> isl x \<longleftrightarrow> (\<forall>e. x \<noteq> Inl e)"
  by (cases x) simp_all

lemma run_middlewares_index:
  "CallMiddleware j c' \<in> set (fst (run_middlewares ms request i c)) \<Longrightarrow>
   i \<le> j \<and> j < i + length ms"
proof (induction ms arbitrary: i c)
  case Nil
  then show ?case by simp
next
  case (Cons m ms)
  show ?case
  proof (cases "snd (m request c)")
    case (Inl e)
    with Cons.prems show ?thesis by simp
  next
    case (Inr fragment)
    with Cons.prems have "(j = i \<and> c' = c) \<or>
        CallMiddleware j c' \<in> set (fst (run_middlewares ms request (Suc i)
          (spread (fst (m request c)) fragment)))"
      by auto
    with Cons.IH [of "Suc i" "spread (fst (m request c)) fragment"] show ?thesis by auto
  qed
qed

lemma run_middlewares_throws:
  assumes "CallMiddleware k c' \<in> set (fst (run_middlewares ms request i c))"
    and "snd ((ms ! (k - i)) request c') = Inl e"
  shows "snd (run_middlewares ms request i c) = Inl e \<and>
         (\<forall>j c''. CallMiddleware j c'' \<in> set (fst (run_middlewares ms request i c)) \<longrightarrow> j \<le> k)"
  using assms
proof (induction ms arbitrary: i c)
  case Nil
  then show ?case by simp
next
  case (Cons m ms)
  show ?case
  proof (cases "k = i")
    case True
    have "c' = c"
    proof (cases "snd (m request c)")
      case (Inl e')
      with Cons.prems(1) show ?thesis by simp
    next
      case (Inr fragment)
      with Cons.prems(1) True
        run_middlewares_index [of k c' ms request "Suc i" "spread (fst (m request c)) fragment"]
      show ?thesis by auto
    qed
    with Cons.prems(2) True have "snd (m request c) = Inl e" by simp
    with True show ?thesis by simp
  next
    case False
    show ?thesis
    proof (cases "snd (m request c)")
      case (Inl e')
      with Cons.prems(1) False show ?thesis by simp
    next
      case (Inr fragment)
      with Cons.prems(1) False
      have m: "CallMiddleware k c' \<in> set (fst (run_middlewares ms request (Suc i)
          (spread (fst (m request c)) fragment)))"
        by auto
      then have "Suc i \<le> k"
        using run_middlewares_index by blast
      then have "(m # ms) ! (k - i) = ms ! (k - Suc i)"
        by (simp add: Suc_diff_le)
      with Cons.prems(2) have "snd ((ms ! (k - Suc i)) request c') = Inl e" by simp
      from Cons.IH [OF m this] Inr \<open>Suc i \<le> k\<close> show ?thesis by auto
    qed
  qed
qed

section \<open>The calls of a run\<close>

lemma parse_body_events:
  "parse_body request = (tr, r) \<Longrightarrow> tr = [] \<or> tr = [ReadFormData] \<or> tr = [ReadJson]"
  by (auto simp: parse_body_def Let_def split: if_splits)

lemma validate_events:
  "fst (validate sl m schema v) = (case schema of None \<Rightarrow> [] | Some s \<Rightarrow> [SafeParse sl v])"
  by (simp add: validate_def split: option.splits)

lemma call_handler_events: "fst (call_handler fn request ctx) = [CallHandler ctx]"
  by (simp add: call_handler_def)

lemma handler_fst:
  "x \<in> set (fst (handler this fn request context)) \<Longrightarrow>
     x \<in> set (fst (try_block this fn request context)) \<or> (\<exists>e. x = CallHandleServerError e)"
  by (auto simp: handler_def split: prod.splits sum.splits thrown.splits option.splits)

lemma extraction_events:
  "x \<in> set (fst (extraction request context)) \<Longrightarrow>
     x = AwaitParams \<or> x \<in> set (fst (parse_body request))"
  unfolding extraction_def
  by (auto dest!: and_then_fst simp: await_params_def split: option.splits)

lemma validation_events:
  "x \<in> set (fst (validation cfg p q b)) \<Longrightarrow> \<exists>sl v. x = SafeParse sl v"
  unfolding validation_def
  by (auto dest!: and_then_fst simp: validate_events split: option.splits)

lemma try_block_events:
  assumes "x \<in> set (fst (try_block this fn request context))"
  shows "x = AwaitParams \<or> x \<in> set (fst (parse_body request)) \<or> (\<exists>sl v. x = SafeParse sl v)
      \<or> (\<exists>j c. x = CallMiddleware j c) \<or> (\<exists>hc. x = CallHandler hc)"
  using assms unfolding try_block_def
  by (auto dest!: and_then_fst run_middlewares_events validation_events extraction_events
        simp: call_handler_events)

lemma validate_accepts:
  "accepts schema v v' \<Longrightarrow> validate sl m schema v = (validation_calls sl schema v, Inr v')"
  by (auto simp: accepts_def validate_def validation_calls_def split: option.splits)

lemma validate_rejects:
  "rejects schema v issues \<Longrightarrow>
   validate sl m schema v =
     ([SafeParse sl v], Inl (InternalRouteHandlerError (error_message (JSON_stringify
        (JObj [(''message'', JStr m), (''errors'', JArr issues)])))))"
  by (auto simp: rejects_def validate_def split: option.splits)

lemma handler_of_try_Inl_internal:
  "try_block this fn request context = (tr, Inl (InternalRouteHandlerError m)) \<Longrightarrow>
   handler this fn request context = (tr, Inr (new_Response (Some m) 400 []))"
  by (simp add: handler_def)

lemma validation_rejected:
  assumes "SafeParse sl v \<in> set (fst (validation cfg p q b))"
    and "rejects (slot_schema sl cfg) v issues"
  shows "snd (validation cfg p q b) =
     Inl (InternalRouteHandlerError (error_message (JSON_stringify
        (JObj [(''message'', JStr (slot_message sl)), (''errors'', JArr issues)]))))"
  using assms unfolding validation_def validate_def rejects_def
  by (cases sl) (auto simp: and_then_def split: option.splits sum.splits)

lemma parse_body_no_SafeParse: "SafeParse sl v \<notin> set (fst (parse_body request))"
  using parse_body_events [of request "fst (parse_body request)" "snd (parse_body request)"]
  by auto

lemma try_block_rejected:
  assumes "SafeParse sl v \<in> set (fst (try_block this fn request context))"
    and "rejects (slot_schema sl (config this)) v issues"
  shows "snd (try_block this fn request context) =
     Inl (InternalRouteHandlerError (error_message (JSON_stringify
        (JObj [(''message'', JStr (slot_message sl)), (''errors'', JArr issues)]))))"
proof (cases "extraction request context")
  case (Pair tr r)
  show ?thesis
  proof (cases r)
    case (Inl e)
    have "SafeParse sl v \<in> set (fst (extraction request context))"
      using assms(1) Pair Inl by (simp add: try_block_def)
    then show ?thesis
      using extraction_events [of "SafeParse sl v" request "context"]
      by (auto simp: parse_body_no_SafeParse)
  next
    case (Inr pqb)
    obtain p q b where pqb: "pqb = (p, q, b)" by (cases pqb)
    have ex: "extraction request context = (tr, Inr (p, q, b))"
      using Pair Inr pqb by simp
    have notin: "SafeParse sl v \<notin> set tr"
      using extraction_events [of "SafeParse sl v" request "context"] ex
      by (auto simp: parse_body_no_SafeParse)
    obtain trv rv where val: "validation (config this) p q b = (trv, rv)"
      by (cases "validation (config this) p q b")
    show ?thesis
    proof (cases rv)
      case (Inl e)
      have "SafeParse sl v \<in> set trv"
        using assms(1) notin by (simp add: try_block_def ex val Inl)
      then have "rv = Inl (InternalRouteHandlerError (error_message (JSON_stringify
        (JObj [(''message'', JStr (slot_message sl)), (''errors'', JArr issues)]))))"
        using validation_rejected [of sl v "config this" p q b issues] assms(2) val by simp
      then show ?thesis
        by (simp add: try_block_def ex val)
    next
      case (Inr pqb')
      obtain p' q' b' where pqb': "pqb' = (p', q', b')" by (cases pqb')
      have "SafeParse sl v \<in> set trv"
        using assms(1) notin
        by (auto simp: try_block_def ex val Inr pqb' call_handler_events
              dest!: and_then_fst run_middlewares_events)
      then have "rv = Inl (InternalRouteHandlerError (error_message (JSON_stringify
        (JObj [(''message'', JStr (slot_message sl)), (''errors'', JArr issues)]))))"
        using validation_rejected [of sl v "config this" p q b issues] assms(2) val by simp
      with Inr show ?thesis by simp
    qed
  qed
qed

lemma try_block_handleServerError:
  "try_block (this\<lparr>handleServerError := h\<rparr>) fn request context = try_block this fn request context"
  by (simp add: try_block_def)

lemma try_block_cases:
  obtains
    (extraction_throws) tr e where
      "extraction request context = (tr, Inl e)"
      "try_block this fn request context = (tr, Inl e)"
  | (validation_throws) tr p q b trv e where
      "extraction request context = (tr, Inr (p, q, b))"
      "validation (config this) p q b = (trv, Inl e)"
      "try_block this fn request context = (tr @ trv, Inl e)"
  | (middleware_throws) tr p q b trv p' q' b' trm e where
      "extraction request context = (tr, Inr (p, q, b))"
      "validation (config this) p q b = (trv, Inr (p', q', b'))"
      "run_middlewares (middlewares this) request 0 [] = (trm, Inl e)"
      "try_block this fn request context = (tr @ trv @ trm, Inl e)"
  | (handler_called) tr p q b trv p' q' b' trm d where
      "extraction request context = (tr, Inr (p, q, b))"
      "validation (config this) p q b = (trv, Inr (p', q', b'))"
      "run_middlewares (middlewares this) request 0 [] = (trm, Inr d)"
      "try_block this fn request context =
         (tr @ trv @ trm @
            [CallHandler \<lparr>ctx_params = p', ctx_query = q', ctx_body = b', ctx_data = d\<rparr>],
          snd (call_handler fn request
            \<lparr>ctx_params = p', ctx_query = q', ctx_body = b', ctx_data = d\<rparr>))"
proof (cases "extraction request context")
  case (Pair tr r)
  show ?thesis
  proof (cases r)
    case (Inl e)
    with Pair show ?thesis
      by (intro extraction_throws [of tr e]) (simp_all add: try_block_def)
  next
    case (Inr pqb)
    obtain p q b where pqb: "pqb = (p, q, b)" by (cases pqb)
    have ex: "extraction request context = (tr, Inr (p, q, b))"
      using Pair Inr pqb by simp
    obtain trv rv where val: "validation (config this) p q b = (trv, rv)"
      by (cases "validation (config this) p q b")
    show ?thesis
    proof (cases rv)
      case (Inl e)
      with ex val show ?thesis
        by (intro validation_throws [of tr p q b trv e]) (simp_all add: try_block_def)
    next
      case (Inr pqb')
      obtain p' q' b' where pqb': "pqb' = (p', q', b')" by (cases pqb')
      have val': "validation (config this) p q b = (trv, Inr (p', q', b'))"
        using val Inr pqb' by simp
      obtain trm rm where mw: "run_middlewares (middlewares this) request 0 [] = (trm, rm)"
        by (cases "run_middlewares (middlewares this) request 0 []")
      show ?thesis
      proof (cases rm)
        case (Inl e)
        with ex val' mw show ?thesis
          by (intro middleware_throws [of tr p q b trv p' q' b' trm e])
             (simp_all add: try_block_def)
      next
        case (Inr d)
        with ex val' mw show ?thesis
          by (intro handler_called [of tr p q b trv p' q' b' trm d])
             (simp_all add: try_block_def call_handler_events)
      qed
    qed
  qed
qed

lemma extraction_no_call:
  "CallHandler hc \<notin> set (fst (extraction request context))"
  "CallMiddleware j c \<notin> set (fst (extraction request context))"
  "SafeParse sl v \<notin> set (fst (extraction request context))"
  "CallHandleServerError e \<notin> set (fst (extraction request context))"
  using extraction_events [of _ request "context"]
    parse_body_events [of request "fst (parse_body request)" "snd (parse_body request)"]
  by fastforce+

lemma validation_no_call:
  "CallHandler hc \<notin> set (fst (validation cfg p q b))"
  "CallMiddleware j c \<notin> set (fst (validation cfg p q b))"
  "CallHandleServerError e \<notin> set (fst (validation cfg p q b))"
  "ReadJson \<notin> set (fst (validation cfg p q b))"
  "ReadFormData \<notin> set (fst (validation cfg p q b))"
  using validation_events [of _ cfg p q b] by fastforce+

lemma try_block_called:
  assumes "CallHandler hc \<in> set (fst (try_block this fn request context))"
  shows "snd (try_block this fn request context) = snd (call_handler fn request hc)"
proof (cases rule: try_block_cases [of request "context" this fn])
  case (extraction_throws tr e)
  with assms extraction_no_call(1) [of hc request "context"] show ?thesis by simp
next
  case (validation_throws tr p q b trv e)
  with assms extraction_no_call(1) [of hc request "context"]
    validation_no_call(1) [of hc "config this" p q b]
  show ?thesis by simp
next
  case (middleware_throws tr p q b trv p' q' b' trm e)
  with assms extraction_no_call(1) [of hc request "context"]
    validation_no_call(1) [of hc "config this" p q b]
    run_middlewares_no_call(1) [of hc "middlewares this" request 0 "[]"]
  show ?thesis by simp
next
  case (handler_called tr p q b trv p' q' b' trm d)
  with assms extraction_no_call(1) [of hc request "context"]
    validation_no_call(1) [of hc "config this" p q b]
    run_middlewares_no_call(1) [of hc "middlewares this" request 0 "[]"]
  show ?thesis by simp
qed

lemma handler_snd_Inr:
  "snd (try_block this fn request context) = Inr r \<Longrightarrow>
   snd (handler this fn request context) = Inr r"
  by (cases "try_block this fn request context") (simp add: handler_def)


lemma try_block_in_handler:
  "x \<in> set (fst (try_block this fn request context)) \<Longrightarrow>
   x \<in> set (fst (handler this fn request context))"
  by (cases "try_block this fn request context")
     (auto simp: handler_def split: sum.splits thrown.splits option.splits)

lemma CallHandler_in_handler:
  "CallHandler hc \<in> set (fst (handler this fn request context)) \<longleftrightarrow>
   CallHandler hc \<in> set (fst (try_block this fn request context))"
  using handler_fst [of "CallHandler hc" this fn request "context"]
    try_block_in_handler [of "CallHandler hc" this fn request "context"]
  by auto

lemma CallMiddleware_in_handler:
  "CallMiddleware j c \<in> set (fst (handler this fn request context)) \<longleftrightarrow>
   CallMiddleware j c \<in> set (fst (try_block this fn request context))"
  using handler_fst [of "CallMiddleware j c" this fn request "context"]
    try_block_in_handler [of "CallMiddleware j c" this fn request "context"]
  by auto

lemma SafeParse_in_handler:
  "SafeParse sl v \<in> set (fst (handler this fn request context)) \<longleftrightarrow>
   SafeParse sl v \<in> set (fst (try_block this fn request context))"
  using handler_fst [of "SafeParse sl v" this fn request "context"]
    try_block_in_handler [of "SafeParse sl v" this fn request "context"]
  by auto

lemma handler_snd_internal:
  "snd (try_block this fn request context) = Inl (InternalRouteHandlerError m) \<Longrightarrow>
   snd (handler this fn request context) = Inr (new_Response (Some m) 400 [])"
  by (cases "try_block this fn request context") (simp add: handler_def)

lemma handler_snd_other:
  "snd (try_block this fn request context) = Inl (OtherError x) \<Longrightarrow>
   snd (handler this fn request context) =
     (case handleServerError this of
        Some f \<Rightarrow> f (OtherError x)
      | None \<Rightarrow> Inr internal_server_error_response)"
  by (cases "try_block this fn request context")
     (simp add: handler_def default_error split: option.splits)

lemma validation_body_value:
  "SafeParse Body v \<in> set (fst (validation cfg p q b)) \<Longrightarrow> v = b"
  unfolding validation_def validate_def
  by (auto simp: and_then_def split: option.splits sum.splits)

lemma validation_Inr_accepts:
  "validation cfg p q b = (trv, Inr (p', q', b')) \<Longrightarrow>
   accepts (paramsSchema cfg) p p' \<and> accepts (querySchema cfg) q q' \<and>
   accepts (bodySchema cfg) b b'"
  unfolding validation_def validate_def accepts_def
  by (auto simp: and_then_def split: option.splits sum.splits)

lemma validation_body_rejected:
  assumes "accepts (paramsSchema cfg) p p'" "accepts (querySchema cfg) q q'"
    "rejects (bodySchema cfg) b issues"
  shows "snd (validation cfg p q b) =
     Inl (InternalRouteHandlerError (error_message (JSON_stringify
        (JObj [(''message'', JStr ''Invalid body''), (''errors'', JArr issues)]))))"
proof -
  have "validate Params ''Invalid params'' (paramsSchema cfg) p =
      (validation_calls Params (paramsSchema cfg) p, Inr p')"
    using assms(1) by (rule validate_accepts)
  moreover have "validate Query ''Invalid query'' (querySchema cfg) q =
      (validation_calls Query (querySchema cfg) q, Inr q')"
    using assms(2) by (rule validate_accepts)
  moreover have "validate Body ''Invalid body'' (bodySchema cfg) b =
      ([SafeParse Body b], Inl (InternalRouteHandlerError (error_message (JSON_stringify
        (JObj [(''message'', JStr ''Invalid body''), (''errors'', JArr issues)])))))"
    using assms(3) by (rule validate_rejects)
  ultimately show ?thesis
    by (simp add: validation_def)
qed

lemma extraction_body_skipped:
  assumes "method request = ''GET'' \<or> method request = ''DELETE''"
    and "extraction request context = (tr, Inr (p, q, b))"
  shows "b = JObj [] \<and> q = parse_query request \<and> await_params context = (tr, Inr p)"
proof -
  have "parse_body request = ([], Inr (JObj []))"
    using assms(1) by (auto simp: parse_body_def)
  with assms(2) show ?thesis
    by (cases "await_params context"; cases "snd (await_params context)")
       (auto simp: extraction_def)
qed

lemma try_block_no_server_error_call:
  "CallHandleServerError e \<notin> set (fst (try_block this fn request context))"
  using try_block_events [of "CallHandleServerError e" this fn request "context"]
    parse_body_events [of request "fst (parse_body request)" "snd (parse_body request)"]
  by fastforce

lemma handler_of_try_other:
  assumes "snd (try_block this fn request context) = Inl (OtherError x)"
  shows "handled_as_server_error this (handler this fn request context) (OtherError x)"
proof (cases "try_block this fn request context")
  case (Pair tr r)
  with assms have t: "try_block this fn request context = (tr, Inl (OtherError x))"
    by simp
  have "CallHandleServerError (OtherError x) \<notin> set tr"
    using try_block_no_server_error_call [of "OtherError x" this fn request "context"] t
    by simp
  then show ?thesis
    by (simp add: handled_as_server_error_def handler_def t default_error split: option.splits)
qed

lemma try_block_middleware_throws:
  assumes "CallMiddleware k c \<in> set (fst (try_block this fn request context))"
    and "snd ((middlewares this ! k) request c) = Inl e"
  shows "snd (try_block this fn request context) = Inl e"
proof (cases rule: try_block_cases [of request "context" this fn])
  case (extraction_throws tr e')
  with assms(1) extraction_no_call(2) [of k c request "context"] show ?thesis by simp
next
  case (validation_throws tr p q b trv e')
  with assms(1) extraction_no_call(2) [of k c request "context"]
    validation_no_call(2) [of k c "config this" p q b]
  show ?thesis by simp
next
  case (middleware_throws tr p q b trv p' q' b' trm e')
  with assms(1) extraction_no_call(2) [of k c request "context"]
    validation_no_call(2) [of k c "config this" p q b]
  have "CallMiddleware k c \<in> set (fst (run_middlewares (middlewares this) request 0 []))"
    by simp
  from run_middlewares_throws [OF this] assms(2) middleware_throws(3,4)
  show ?thesis by simp
next
  case (handler_called tr p q b trv p' q' b' trm d)
  with assms(1) extraction_no_call(2) [of k c request "context"]
    validation_no_call(2) [of k c "config this" p q b]
  have "CallMiddleware k c \<in> set (fst (run_middlewares (middlewares this) request 0 []))"
    by simp
  from run_middlewares_throws [OF this] assms(2) handler_called(3)
  show ?thesis by simp
qed

lemma try_block_body_parse_fails:
  assumes "await_params context = (tr, Inr p)" and "parse_body request = (tr', Inl e)"
  shows "try_block this fn request context = (tr @ tr', Inl e)"
  using assms by (simp add: try_block_def extraction_def)



lemma handler_prefix_try_block:
  "prefix (fst (try_block this fn request context)) (fst (handler this fn request context))"
  by (cases "try_block this fn request context")
     (auto simp: handler_def split: sum.splits thrown.splits option.splits)


lemma try_block_prefix_middlewares:
  assumes "extraction request context = (tr0, Inr (p, q, b))"
    and "validation (config this) p q b = (trv, Inr (p', q', b'))"
  shows "prefix (tr0 @ trv @ fst (run_middlewares (middlewares this) request 0 []))
           (fst (try_block this fn request context))"
  using assms
  by (cases "run_middlewares (middlewares this) request 0 []";
      cases "snd (run_middlewares (middlewares this) request 0 [])")
     (simp_all add: try_block_def)




lemmas route_defs =
  handler_def try_block_def extraction_def validation_def validate_def await_params_def
  parse_body_def parse_query_def fromEntries_def spread_def call_handler_def

section \<open>The store of builders\<close>

lemma get_builder_append: "get_builder h r = Some x \<Longrightarrow> get_builder (h @ h2) r = Some x"
  by (auto simp: get_builder_def nth_append split: if_splits)

lemma get_config_append: "get_config h r = Some x \<Longrightarrow> get_config (h @ h2) r = Some x"
  by (auto simp: get_config_def nth_append split: if_splits)

lemma get_array_append: "get_array h r = Some x \<Longrightarrow> get_array (h @ h2) r = Some x"
  by (auto simp: get_array_def nth_append split: if_splits)

lemma builder_of_append: "builder_of h r = Some x \<Longrightarrow> builder_of (h @ h2) r = Some x"
  by (auto simp: builder_of_def get_builder_append get_config_append get_array_append
        split: option.splits)

lemma builder_of_Some:
  "builder_of h this = Some b \<longleftrightarrow>
     (\<exists>obj. get_builder h this = Some obj \<and> get_config h (config_ref obj) = Some (config b) \<and>
        get_array h (middlewares_ref obj) = Some (middlewares b) \<and>
        handleServerError_field obj = handleServerError b)"
  by (cases b) (auto simp: builder_of_def split: option.splits)

lemma get_last:
  "get_builder (h @ [BuilderCell obj]) (length h) = Some obj"
  "get_config (h @ [ConfigCell c]) (length h) = Some c"
  "get_array (h @ [ArrayCell ms]) (length h) = Some ms"
  by (simp_all add: get_builder_def get_config_def get_array_def)

lemma RouteHandlerBuilder_given:
  assumes "get_config h c = Some cfg" "get_array h m = Some ms"
  shows "RouteHandlerBuilder (Some c) (Some m) hse h =
           (length h, h @ [BuilderCell \<lparr>config_ref = c, middlewares_ref = m,
                                       handleServerError_field = hse\<rparr>]) \<and>
         builder_of (h @ [BuilderCell \<lparr>config_ref = c, middlewares_ref = m,
                                       handleServerError_field = hse\<rparr>]) (length h) =
           Some \<lparr>config = cfg, middlewares = ms, handleServerError = hse\<rparr>"
  using assms
  by (simp add: RouteHandlerBuilder_def alloc_def builder_of_def get_last
        get_config_append get_array_append)

lemma set_schema_new_builder:
  assumes "builder_of h this = Some b"
  shows "\<exists>obj. get_builder h this = Some obj \<and>
     RouteHandlerBuilder (Some (length h)) (Some (middlewares_ref obj)) (handleServerError_field obj)
        (h @ [ConfigCell cfg]) =
       (Suc (length h),
        h @ [ConfigCell cfg, BuilderCell \<lparr>config_ref = length h,
               middlewares_ref = middlewares_ref obj,
               handleServerError_field = handleServerError_field obj\<rparr>]) \<and>
     builder_of (h @ [ConfigCell cfg, BuilderCell \<lparr>config_ref = length h,
               middlewares_ref = middlewares_ref obj,
               handleServerError_field = handleServerError_field obj\<rparr>]) (Suc (length h)) =
       Some (b\<lparr>config := cfg\<rparr>)"
proof -
  from assms obtain obj where obj: "get_builder h this = Some obj"
    "get_config h (config_ref obj) = Some (config b)"
    "get_array h (middlewares_ref obj) = Some (middlewares b)"
    "handleServerError_field obj = handleServerError b"
    by (auto simp: builder_of_Some)
  have c: "get_config (h @ [ConfigCell cfg]) (length h) = Some cfg"
    by (rule get_last)
  have m: "get_array (h @ [ConfigCell cfg]) (middlewares_ref obj) = Some (middlewares b)"
    using obj(3) by (rule get_array_append)
  from RouteHandlerBuilder_given [OF c m, of "handleServerError_field obj"] obj
  show ?thesis by (cases b) simp
qed

section \<open>Claim C1: the order of validation\<close>

text \<open>
  Claim C1, as the code has it. The \<^verbatim>\<open>try\<close> block awaits the params and parses the body
  before it runs any schema, so the claim needs the extraction to complete. For a request
  whose extraction completes, with the trace \<open>tr\<close> and the values \<open>p\<close>, \<open>q\<close>, \<open>b\<close>: the
  schemas run in the order params, query, body, a slot without a schema making no call;
  when the params schema rejects \<open>p\<close> the run ends right after that call, with status 400
  and the message \<^verbatim>\<open>Invalid params\<close>, whatever the query and body schemas would say; when
  the query schema is the first to reject, the run ends after its call with
  \<^verbatim>\<open>Invalid query\<close>; when the body schema is the first to reject, after its call with
  \<^verbatim>\<open>Invalid body\<close>. The trace ends at the rejecting call: no later schema, no middleware
  and no handler is called.
\<close>

theorem validation_in_order:
  assumes "extraction request context = (tr, Inr (p, q, b))"
  shows
    "(rejects (paramsSchema (config this)) p issues \<longrightarrow>
        handler this fn request context =
          (tr @ [SafeParse Params p], Inr (validation_error_response ''Invalid params'' issues))) \<and>
     (accepts (paramsSchema (config this)) p p' \<and> rejects (querySchema (config this)) q issues \<longrightarrow>
        handler this fn request context =
          (tr @ validation_calls Params (paramsSchema (config this)) p @ [SafeParse Query q],
           Inr (validation_error_response ''Invalid query'' issues))) \<and>
     (accepts (paramsSchema (config this)) p p' \<and> accepts (querySchema (config this)) q q' \<and>
      rejects (bodySchema (config this)) b issues \<longrightarrow>
        handler this fn request context =
          (tr @ validation_calls Params (paramsSchema (config this)) p @
             validation_calls Query (querySchema (config this)) q @ [SafeParse Body b],
           Inr (validation_error_response ''Invalid body'' issues)))"
proof (intro conjI impI)
  assume "rejects (paramsSchema (config this)) p issues"
  then have "validate Params ''Invalid params'' (paramsSchema (config this)) p =
      ([SafeParse Params p], Inl (InternalRouteHandlerError (error_message (JSON_stringify
        (JObj [(''message'', JStr ''Invalid params''), (''errors'', JArr issues)])))))"
    by (rule validate_rejects)
  then have "try_block this fn request context =
      (tr @ [SafeParse Params p], Inl (InternalRouteHandlerError (error_message (JSON_stringify
        (JObj [(''message'', JStr ''Invalid params''), (''errors'', JArr issues)])))))"
    by (simp add: try_block_def assms validation_def)
  then show "handler this fn request context =
          (tr @ [SafeParse Params p], Inr (validation_error_response ''Invalid params'' issues))"
    by (simp add: handler_of_try_Inl_internal thrown_validation_error)
next
  assume a: "accepts (paramsSchema (config this)) p p' \<and> rejects (querySchema (config this)) q issues"
  from a have v1: "validate Params ''Invalid params'' (paramsSchema (config this)) p =
      (validation_calls Params (paramsSchema (config this)) p, Inr p')"
    by (simp add: validate_accepts)
  from a have v2: "validate Query ''Invalid query'' (querySchema (config this)) q =
      ([SafeParse Query q], Inl (InternalRouteHandlerError (error_message (JSON_stringify
        (JObj [(''message'', JStr ''Invalid query''), (''errors'', JArr issues)])))))"
    by (simp add: validate_rejects)
  have "try_block this fn request context =
      (tr @ validation_calls Params (paramsSchema (config this)) p @ [SafeParse Query q],
       Inl (InternalRouteHandlerError (error_message (JSON_stringify
        (JObj [(''message'', JStr ''Invalid query''), (''errors'', JArr issues)])))))"
    by (simp add: try_block_def assms validation_def v1 v2)
  then show "handler this fn request context =
          (tr @ validation_calls Params (paramsSchema (config this)) p @ [SafeParse Query q],
           Inr (validation_error_response ''Invalid query'' issues))"
    by (simp add: handler_of_try_Inl_internal thrown_validation_error)
next
  assume a: "accepts (paramsSchema (config this)) p p' \<and> accepts (querySchema (config this)) q q' \<and>
      rejects (bodySchema (config this)) b issues"
  from a have v1: "validate Params ''Invalid params'' (paramsSchema (config this)) p =
      (validation_calls Params (paramsSchema (config this)) p, Inr p')"
    by (simp add: validate_accepts)
  from a have v2: "validate Query ''Invalid query'' (querySchema (config this)) q =
      (validation_calls Query (querySchema (config this)) q, Inr q')"
    by (simp add: validate_accepts)
  from a have v3: "validate Body ''Invalid body'' (bodySchema (config this)) b =
      ([SafeParse Body b], Inl (InternalRouteHandlerError (error_message (JSON_stringify
        (JObj [(''message'', JStr ''Invalid body''), (''errors'', JArr issues)])))))"
    by (simp add: validate_rejects)
  have "try_block this fn request context =
      (tr @ validation_calls Params (paramsSchema (config this)) p @
             validation_calls Query (querySchema (config this)) q @ [SafeParse Body b],
       Inl (InternalRouteHandlerError (error_message (JSON_stringify
        (JObj [(''message'', JStr ''Invalid body''), (''errors'', JArr issues)])))))"
    by (simp add: try_block_def assms validation_def v1 v2 v3)
  then show "handler this fn request context =
          (tr @ validation_calls Params (paramsSchema (config this)) p @
             validation_calls Query (querySchema (config this)) q @ [SafeParse Body b],
           Inr (validation_error_response ''Invalid body'' issues))"
    by (simp add: handler_of_try_Inl_internal thrown_validation_error)
qed

theorem validation_in_order_witness:
  "handler all_schemas_route echo_handler post_json_request invalid_params =
     ([AwaitParams, ReadJson, SafeParse Params (JObj [(''id'', JNum 7)])],
      Inr (validation_error_response ''Invalid params'' [issue ''id''])) \<and>
   handler all_schemas_route echo_handler (post_json_request\<lparr>searchParams := []\<rparr>) valid_params =
     ([AwaitParams, ReadJson,
       SafeParse Params (JObj [(''id'', JStr ''550e8400''), (''other'', JNull)]),
       SafeParse Query (JObj [])],
      Inr (validation_error_response ''Invalid query'' [issue ''search''])) \<and>
   handler all_schemas_route echo_handler
       (post_json_request\<lparr>request_json := Inr (JObj [(''field'', JNum 123)])\<rparr>) valid_params =
     ([AwaitParams, ReadJson,
       SafeParse Params (JObj [(''id'', JStr ''550e8400''), (''other'', JNull)]),
       SafeParse Query (JObj [(''search'', JStr ''test'')]),
       SafeParse Body (JObj [(''field'', JNum 123)])],
      Inr (validation_error_response ''Invalid body'' [issue ''field'']))"
proof -
  have e1: "extraction post_json_request invalid_params =
      ([AwaitParams, ReadJson],
       Inr (JObj [(''id'', JNum 7)], JObj [(''search'', JStr ''test'')],
            JObj [(''field'', JStr ''test-field''), (''extra'', JNum 1)]))"
    by (simp add: route_defs all_schemas_route_def all_schemas_def string_field_schema_def post_json_request_def valid_params_def invalid_params_def)
  have e2: "extraction (post_json_request\<lparr>searchParams := []\<rparr>) valid_params =
      ([AwaitParams, ReadJson],
       Inr (JObj [(''id'', JStr ''550e8400''), (''other'', JNull)], JObj [],
            JObj [(''field'', JStr ''test-field''), (''extra'', JNum 1)]))"
    by (simp add: route_defs all_schemas_route_def all_schemas_def string_field_schema_def post_json_request_def valid_params_def invalid_params_def)
  have e3: "extraction (post_json_request\<lparr>request_json := Inr (JObj [(''field'', JNum 123)])\<rparr>)
        valid_params =
      ([AwaitParams, ReadJson],
       Inr (JObj [(''id'', JStr ''550e8400''), (''other'', JNull)],
            JObj [(''search'', JStr ''test'')], JObj [(''field'', JNum 123)]))"
    by (simp add: route_defs all_schemas_route_def all_schemas_def string_field_schema_def post_json_request_def valid_params_def invalid_params_def)
  have r1: "rejects (paramsSchema (config all_schemas_route)) (JObj [(''id'', JNum 7)]) [issue ''id'']"
    by (simp add: rejects_def all_schemas_route_def all_schemas_def string_field_schema_def post_json_request_def valid_params_def invalid_params_def)
  have a2: "accepts (paramsSchema (config all_schemas_route))
      (JObj [(''id'', JStr ''550e8400''), (''other'', JNull)]) (JObj [(''id'', JStr ''550e8400'')])"
    by (simp add: accepts_def all_schemas_route_def all_schemas_def string_field_schema_def post_json_request_def valid_params_def invalid_params_def)
  have r2: "rejects (querySchema (config all_schemas_route)) (JObj []) [issue ''search'']"
    by (simp add: rejects_def all_schemas_route_def all_schemas_def string_field_schema_def post_json_request_def valid_params_def invalid_params_def)
  have a3: "accepts (querySchema (config all_schemas_route))
      (JObj [(''search'', JStr ''test'')]) (JObj [(''search'', JStr ''test'')])"
    by (simp add: accepts_def all_schemas_route_def all_schemas_def string_field_schema_def post_json_request_def valid_params_def invalid_params_def)
  have r3: "rejects (bodySchema (config all_schemas_route)) (JObj [(''field'', JNum 123)])
      [issue ''field'']"
    by (simp add: rejects_def all_schemas_route_def all_schemas_def string_field_schema_def post_json_request_def valid_params_def invalid_params_def)
  have c: "validation_calls Params (paramsSchema (config all_schemas_route)) v = [SafeParse Params v]"
    "validation_calls Query (querySchema (config all_schemas_route)) v = [SafeParse Query v]" for v
    by (simp_all add: validation_calls_def all_schemas_route_def all_schemas_def string_field_schema_def post_json_request_def valid_params_def invalid_params_def)
  show ?thesis
    using validation_in_order [OF e1, where this = all_schemas_route and issues = "[issue ''id'']"
            and fn = echo_handler]
      validation_in_order [OF e2, where this = all_schemas_route and issues = "[issue ''search'']"
            and fn = echo_handler and p' = "JObj [(''id'', JStr ''550e8400'')]"]
      validation_in_order [OF e3, where this = all_schemas_route and issues = "[issue ''field'']"
            and fn = echo_handler and p' = "JObj [(''id'', JStr ''550e8400'')]"
            and q' = "JObj [(''search'', JStr ''test'')]"]
      r1 a2 r2 a3 r3
    by (simp add: c)
qed

text \<open>
  Claim C1 as stated fails where the extraction itself throws: a POST whose body is not
  JSON, sent to a route whose params schema rejects the awaited params, is answered with
  the default 500 response, and the params schema is never run.
\<close>

theorem params_rejected_after_body_parse_failure:
  "await_params invalid_params = ([AwaitParams], Inr (JObj [(''id'', JNum 7)])) \<and>
   rejects (paramsSchema (config all_schemas_route)) (JObj [(''id'', JNum 7)]) [issue ''id''] \<and>
   handler all_schemas_route echo_handler post_malformed_request invalid_params =
     ([AwaitParams, ReadJson],
      Inr \<lparr>status = 500, body_text = Some ''{\"message\":\"Internal server error\"}'',
           headers = []\<rparr>)"
  by (simp add: await_params_def invalid_params_def rejects_def all_schemas_route_def
        all_schemas_def string_field_schema_def handler_def try_block_def extraction_def
        parse_body_def post_malformed_request_def default_error
        internal_server_error_response_def)

section \<open>Claim C2: the validation-error response\<close>

text \<open>
  Claim C2. Whenever the run of a route calls the schema of a slot on a value that the
  schema rejects, the response has status 400 and the body
  \<^verbatim>\<open>{"message":"Invalid <slot>","errors":[...]}\<close> with the issues of that schema, whatever
  \<^verbatim>\<open>handleServerError\<close> the builder was created with, and \<^verbatim>\<open>handleServerError\<close> is
  not called.
\<close>

theorem validation_failure_response:
  assumes "SafeParse sl v \<in> set (fst (handler this fn request context))"
    and "rejects (slot_schema sl (config this)) v issues"
  shows "snd (handler (this\<lparr>handleServerError := h\<rparr>) fn request context) =
           Inr (validation_error_response (slot_message sl) issues) \<and>
         (\<forall>e. CallHandleServerError e \<notin>
                set (fst (handler (this\<lparr>handleServerError := h\<rparr>) fn request context)))"
proof -
  have "SafeParse sl v \<in> set (fst (try_block this fn request context))"
    using handler_fst [OF assms(1)] by auto
  then have "snd (try_block this fn request context) =
     Inl (InternalRouteHandlerError (error_message (JSON_stringify
        (JObj [(''message'', JStr (slot_message sl)), (''errors'', JArr issues)]))))"
    using assms(2) by (rule try_block_rejected)
  then have t: "try_block (this\<lparr>handleServerError := h\<rparr>) fn request context =
     (fst (try_block this fn request context),
      Inl (InternalRouteHandlerError (error_message (JSON_stringify
        (JObj [(''message'', JStr (slot_message sl)), (''errors'', JArr issues)])))))"
    by (simp add: try_block_handleServerError prod_eq_iff)
  have h: "handler (this\<lparr>handleServerError := h\<rparr>) fn request context =
     (fst (try_block this fn request context),
      Inr (validation_error_response (slot_message sl) issues))"
    using handler_of_try_Inl_internal [OF t] by (simp add: thrown_validation_error)
  have "\<forall>e. CallHandleServerError e \<notin> set (fst (try_block this fn request context))"
    using try_block_events [of _ this fn request "context"]
      parse_body_events [of request "fst (parse_body request)" "snd (parse_body request)"]
    by fastforce
  with h show ?thesis by simp
qed

theorem validation_failure_response_witness:
  "snd (handler (all_schemas_route\<lparr>handleServerError := Some custom_handleServerError\<rparr>)
          echo_handler (post_json_request\<lparr>request_json := Inr (JObj [(''field'', JNum 123)])\<rparr>)
          valid_params) =
     Inr \<lparr>status = 400,
          body_text = Some ''{\"message\":\"Invalid body\",\"errors\":[{\"code\":\"invalid_type\",\"path\":[\"field\"]}]}'',
          headers = []\<rparr>"
proof -
  have m: "SafeParse Body (JObj [(''field'', JNum 123)]) \<in> set (fst (handler all_schemas_route
          echo_handler (post_json_request\<lparr>request_json := Inr (JObj [(''field'', JNum 123)])\<rparr>)
          valid_params))"
    by (simp add: route_defs all_schemas_route_def all_schemas_def string_field_schema_def post_json_request_def valid_params_def)
  have r: "rejects (slot_schema Body (config all_schemas_route)) (JObj [(''field'', JNum 123)])
      [issue ''field'']"
    by (simp add: rejects_def all_schemas_route_def all_schemas_def string_field_schema_def post_json_request_def valid_params_def)
  have "validation_error_response (slot_message Body) [issue ''field''] =
     \<lparr>status = 400,
      body_text = Some ''{\"message\":\"Invalid body\",\"errors\":[{\"code\":\"invalid_type\",\"path\":[\"field\"]}]}'',
      headers = []\<rparr>"
    by (simp add: validation_error_response_def issue_def QuoteJSONString_def quote_char_def)
  then show ?thesis
    using validation_failure_response [OF m r, of "Some custom_handleServerError"] by simp
qed

section \<open>Claim C3: errors other than validation errors\<close>

text \<open>
  Claim C3, as the code has it. The \<^verbatim>\<open>catch\<close> clause sorts what was thrown by its
  class, not by where it was thrown. When the body read, a middleware that the run calls,
  or the user's handler throws a value that is not an \<^verbatim>\<open>InternalRouteHandlerError\<close>:
  with a \<^verbatim>\<open>handleServerError\<close> configured, that function is called with the thrown
  value and the route resolves to whatever it gives; without one, the route resolves to
  status 500 with the body \<^verbatim>\<open>{"message":"Internal server error"}\<close>, which holds
  nothing of the thrown value.
\<close>

theorem generic_failure_handling:
  "(await_params context = (tr, Inr p) \<and> parse_body request = (tr', Inl (OtherError x)) \<longrightarrow>
      handled_as_server_error this (handler this fn request context) (OtherError x)) \<and>
   (CallMiddleware k c \<in> set (fst (handler this fn request context)) \<and>
    snd ((middlewares this ! k) request c) = Inl (OtherError x) \<longrightarrow>
      handled_as_server_error this (handler this fn request context) (OtherError x)) \<and>
   (CallHandler hc \<in> set (fst (handler this fn request context)) \<and>
    fn request hc = Throws (OtherError x) \<longrightarrow>
      handled_as_server_error this (handler this fn request context) (OtherError x))"
proof (intro conjI impI)
  assume "await_params context = (tr, Inr p) \<and> parse_body request = (tr', Inl (OtherError x))"
  then have "snd (try_block this fn request context) = Inl (OtherError x)"
    using try_block_body_parse_fails [of "context" tr p request tr' "OtherError x" this fn]
    by simp
  then show "handled_as_server_error this (handler this fn request context) (OtherError x)"
    by (rule handler_of_try_other)
next
  assume a: "CallMiddleware k c \<in> set (fst (handler this fn request context)) \<and>
    snd ((middlewares this ! k) request c) = Inl (OtherError x)"
  then have "CallMiddleware k c \<in> set (fst (try_block this fn request context))"
    by (simp add: CallMiddleware_in_handler)
  with a have "snd (try_block this fn request context) = Inl (OtherError x)"
    using try_block_middleware_throws [of k c this fn request "context" "OtherError x"]
    by simp
  then show "handled_as_server_error this (handler this fn request context) (OtherError x)"
    by (rule handler_of_try_other)
next
  assume a: "CallHandler hc \<in> set (fst (handler this fn request context)) \<and>
    fn request hc = Throws (OtherError x)"
  then have "CallHandler hc \<in> set (fst (try_block this fn request context))"
    by (simp add: CallHandler_in_handler)
  then have "snd (try_block this fn request context) = snd (call_handler fn request hc)"
    by (rule try_block_called)
  with a have "snd (try_block this fn request context) = Inl (OtherError x)"
    by (simp add: call_handler_def)
  then show "handled_as_server_error this (handler this fn request context) (OtherError x)"
    by (rule handler_of_try_other)
qed

theorem generic_failure_handling_witness:
  "handler plain_route echo_handler post_malformed_request None =
     ([ReadJson], Inr internal_server_error_response) \<and>
   handler (plain_route\<lparr>handleServerError := Some custom_handleServerError\<rparr>)
       echo_handler post_malformed_request None =
     ([ReadJson, CallHandleServerError (OtherError ''SyntaxError'')],
      Inr \<lparr>status = 418, body_text = Some ''{\"message\":\"Something went wrong\"}'',
           headers = []\<rparr>) \<and>
   handler (plain_route\<lparr>middlewares := [middleware_x1, middleware_throws, middleware_x2_y3]\<rparr>)
       echo_handler get_request None =
     ([CallMiddleware 0 [], CallMiddleware 1 [(''x'', JNum 1)]],
      Inr internal_server_error_response) \<and>
   handler (plain_route\<lparr>handleServerError := Some custom_handleServerError\<rparr>)
       throwing_handler get_request None =
     ([CallHandler \<lparr>ctx_params = JObj [], ctx_query = JObj [(''search'', JStr ''test'')],
                    ctx_body = JObj [], ctx_data = []\<rparr>,
       CallHandleServerError (OtherError ''CustomError'')],
      Inr \<lparr>status = 418, body_text = Some ''{\"message\":\"Something went wrong\"}'',
           headers = []\<rparr>)"
proof -
  let ?custom = "plain_route\<lparr>handleServerError := Some custom_handleServerError\<rparr>"
  let ?chain = "plain_route\<lparr>middlewares := [middleware_x1, middleware_throws, middleware_x2_y3]\<rparr>"
  let ?hc = "\<lparr>ctx_params = JObj [], ctx_query = JObj [(''search'', JStr ''test'')],
               ctx_body = JObj [], ctx_data = []\<rparr>"
  have a: "await_params None = ([], Inr (JObj []))"
    by (simp add: await_params_def)
  have b: "parse_body post_malformed_request = ([ReadJson], Inl (OtherError ''SyntaxError''))"
    by (simp add: parse_body_def post_malformed_request_def)
  have f1: "fst (handler plain_route echo_handler post_malformed_request None) = [ReadJson]"
    by (simp add: route_defs plain_route_def no_schemas_def post_malformed_request_def)
  have f2: "fst (handler ?custom echo_handler post_malformed_request None) =
      [ReadJson, CallHandleServerError (OtherError ''SyntaxError'')]"
    by (simp add: route_defs plain_route_def no_schemas_def post_malformed_request_def)
  have f3: "fst (handler ?chain echo_handler get_request None) =
      [CallMiddleware 0 [], CallMiddleware 1 [(''x'', JNum 1)]]"
    by (simp add: route_defs plain_route_def no_schemas_def get_request_def middleware_x1_def
          middleware_throws_def)
  have t3: "snd ((middlewares ?chain ! 1) get_request [(''x'', JNum 1)]) =
      Inl (OtherError ''Unauthorized'')"
    by (simp add: middleware_throws_def)
  have f4: "fst (handler ?custom throwing_handler get_request None) =
      [CallHandler ?hc, CallHandleServerError (OtherError ''CustomError'')]"
    by (simp add: route_defs plain_route_def no_schemas_def get_request_def throwing_handler_def)
  have t4: "throwing_handler get_request ?hc = Throws (OtherError ''CustomError'')"
    by (simp add: throwing_handler_def)
  have c: "custom_handleServerError e =
      Inr \<lparr>status = 418, body_text = Some ''{\"message\":\"Something went wrong\"}'',
           headers = []\<rparr>" for e
    by (simp add: custom_handleServerError_def)
  show ?thesis
    using generic_failure_handling [of None "[]" "JObj []" post_malformed_request "[ReadJson]"
        "''SyntaxError''" plain_route echo_handler]
      generic_failure_handling [of None "[]" "JObj []" post_malformed_request "[ReadJson]"
        "''SyntaxError''" ?custom echo_handler]
      generic_failure_handling [of None _ _ get_request _ "''Unauthorized''" ?chain echo_handler
        1 "[(''x'', JNum 1)]"]
      generic_failure_handling [of None _ _ get_request _ "''CustomError''" ?custom throwing_handler
        _ _ ?hc]
      a b f1 f2 f3 t3 f4 t4
    by (simp add: handled_as_server_error_def plain_route_def c prod_eq_iff)
qed

text \<open>
  Claim C3 as stated fails for a handler that throws an instance of the exported class
  \<^verbatim>\<open>InternalRouteHandlerError\<close>: the configured \<^verbatim>\<open>handleServerError\<close> is not called,
  and with or without it the response has status 400 and the error's message as body.
\<close>

theorem internal_error_thrown_by_handler:
  "custom_handleServerError (InternalRouteHandlerError ''teapot'') =
     Inr \<lparr>status = 418, body_text = Some ''{\"message\":\"Something went wrong\"}'',
          headers = []\<rparr> \<and>
   handler (plain_route\<lparr>handleServerError := Some custom_handleServerError\<rparr>)
       throwing_internal_handler get_request None =
     ([CallHandler \<lparr>ctx_params = JObj [], ctx_query = JObj [(''search'', JStr ''test'')],
                    ctx_body = JObj [], ctx_data = []\<rparr>],
      Inr \<lparr>status = 400, body_text = Some ''teapot'', headers = []\<rparr>) \<and>
   handler plain_route throwing_internal_handler get_request None =
     ([CallHandler \<lparr>ctx_params = JObj [], ctx_query = JObj [(''search'', JStr ''test'')],
                    ctx_body = JObj [], ctx_data = []\<rparr>],
      Inr \<lparr>status = 400, body_text = Some ''teapot'', headers = []\<rparr>)"
  by (simp add: route_defs plain_route_def no_schemas_def get_request_def throwing_internal_handler_def custom_handleServerError_def new_Response_def)

section \<open>Claim C4: the values given to the handler\<close>



section \<open>Claim C5: the middleware chain\<close>

text \<open>
  Claim C5, as the code has it. The middleware run one after the other in the order of
  the array, the first on the empty object, and every middleware is called unless one
  before it throws, at which the chain ends. A middleware is handed the context object
  itself, and the spread that makes the next context reads that object after the
  middleware has run: the \<open>n\<close>-th call of the chain is the call of the \<open>n\<close>-th middleware
  on \<open>context_before\<close>, in which the fragment of each earlier middleware is spread over the
  context as that middleware left it, with whatever it wrote there. For middleware that
  do not write to their context this is the spread of the earlier fragments alone. A
  chain that completes has called every middleware and hands to the handler the context
  after the last one; in the run of the route the calls of the chain follow those of the
  validation. In a spread the fragment's value wins on a key both objects have. The
  witness is the chain of a middleware returning \<^verbatim>\<open>{x:1}\<close> and one returning
  \<^verbatim>\<open>{x:2,y:3}\<close>.
\<close>

theorem middleware_chain_merges_in_order:
  assumes "run_middlewares (middlewares this) request 0 [] = (tr, r)"
  shows "context_before (middlewares this) request 0 = [] \<and>
     length tr \<le> length (middlewares this) \<and>
     (\<forall>n<length tr. tr ! n = CallMiddleware n (context_before (middlewares this) request n)) \<and>
     (\<forall>n<length (middlewares this).
        (\<forall>j<n. \<forall>e. snd ((middlewares this ! j) request
                        (context_before (middlewares this) request j)) \<noteq> Inl e) \<longrightarrow>
        n < length tr) \<and>
     (\<forall>n<length tr. \<forall>e.
        snd ((middlewares this ! n) request (context_before (middlewares this) request n)) = Inl e \<longrightarrow>
        length tr = Suc n \<and> r = Inl e) \<and>
     (\<forall>n<length (middlewares this). \<forall>fragment.
        snd ((middlewares this ! n) request (context_before (middlewares this) request n)) =
          Inr fragment \<longrightarrow>
        context_before (middlewares this) request (Suc n) =
          spread (fst ((middlewares this ! n) request
                    (context_before (middlewares this) request n))) fragment) \<and>
     ((\<forall>j<length (middlewares this). \<forall>e. snd ((middlewares this ! j) request
                        (context_before (middlewares this) request j)) \<noteq> Inl e) \<longrightarrow>
        r = Inr (context_before (middlewares this) request (length (middlewares this)))) \<and>
     (\<forall>d. r = Inr d \<longrightarrow>
        length tr = length (middlewares this) \<and>
        d = context_before (middlewares this) request (length (middlewares this))) \<and>
     (\<forall>tr0 p q b trv p' q' b'.
        extraction request context = (tr0, Inr (p, q, b)) \<and>
        validation (config this) p q b = (trv, Inr (p', q', b')) \<longrightarrow>
        prefix (tr0 @ trv @ tr) (fst (handler this fn request context))) \<and>
     (\<forall>hc. CallHandler hc \<in> set (fst (handler this fn request context)) \<longrightarrow>
        r = Inr (ctx_data hc)) \<and>
     (\<forall>c fragment. distinct (map fst fragment) \<longrightarrow>
        map_of (spread c fragment) = map_of c ++ map_of fragment)"
proof -
  let ?ms = "middlewares this"
  note t = run_middlewares_trace [OF assms]
  have tr: "tr = fst (run_middlewares ?ms request 0 [])"
    and r: "r = snd (run_middlewares ?ms request 0 [])"
    using assms by simp_all
  have c1: "context_before ?ms request 0 = []"
    by (simp add: context_before_def)
  have c2: "length tr \<le> length ?ms"
    using t by simp
  have c3: "\<forall>n<length tr. tr ! n = CallMiddleware n (context_before ?ms request n)"
    using t by (simp add: context_before_def)
  have c4: "\<forall>n<length ?ms.
        (\<forall>j<n. \<forall>e. snd ((?ms ! j) request (context_before ?ms request j)) \<noteq> Inl e) \<longrightarrow>
        n < length tr"
  proof (intro allI impI)
    fix n
    assume n: "n < length ?ms"
      and ok: "\<forall>j<n. \<forall>e. snd ((?ms ! j) request (context_before ?ms request j)) \<noteq> Inl e"
    from ok have "\<forall>j<n. \<not> isl (snd ((?ms ! j) request (merged_from [] ?ms request j)))"
      by (simp add: context_before_def not_isl_iff)
    with n show "n < length tr"
      unfolding tr by (rule run_middlewares_progress)
  qed
  have c5: "\<forall>n<length tr. \<forall>e.
        snd ((?ms ! n) request (context_before ?ms request n)) = Inl e \<longrightarrow>
        length tr = Suc n \<and> r = Inl e"
  proof (intro allI impI)
    fix n e
    assume "n < length tr"
      and "snd ((?ms ! n) request (context_before ?ms request n)) = Inl e"
    then have "n < length (fst (run_middlewares ?ms request 0 []))"
      and "snd ((?ms ! n) request (merged_from [] ?ms request n)) = Inl e"
      by (simp_all add: tr context_before_def)
    then have "length (fst (run_middlewares ?ms request 0 [])) = Suc n \<and>
         snd (run_middlewares ?ms request 0 []) = Inl e"
      by (rule run_middlewares_stop)
    then show "length tr = Suc n \<and> r = Inl e"
      by (simp add: tr r)
  qed
  have c6: "\<forall>n<length ?ms. \<forall>fragment.
        snd ((?ms ! n) request (context_before ?ms request n)) = Inr fragment \<longrightarrow>
        context_before ?ms request (Suc n) =
          spread (fst ((?ms ! n) request (context_before ?ms request n))) fragment"
    by (simp add: context_before_def merged_from.simps(2))
  have c7: "(\<forall>j<length ?ms. \<forall>e. snd ((?ms ! j) request (context_before ?ms request j)) \<noteq> Inl e) \<longrightarrow>
        r = Inr (context_before ?ms request (length ?ms))"
  proof
    assume "\<forall>j<length ?ms. \<forall>e. snd ((?ms ! j) request (context_before ?ms request j)) \<noteq> Inl e"
    then have "\<forall>j<length ?ms. \<not> isl (snd ((?ms ! j) request (merged_from [] ?ms request j)))"
      by (simp add: context_before_def not_isl_iff)
    then have "snd (run_middlewares ?ms request 0 []) = Inr (merged_from [] ?ms request (length ?ms))"
      by (rule run_middlewares_completes)
    then show "r = Inr (context_before ?ms request (length ?ms))"
      by (simp add: r context_before_def)
  qed
  have c8: "\<forall>d. r = Inr d \<longrightarrow>
        length tr = length ?ms \<and> d = context_before ?ms request (length ?ms)"
    using t by (simp add: context_before_def)
  have c9: "\<forall>tr0 p q b trv p' q' b'.
        extraction request context = (tr0, Inr (p, q, b)) \<and>
        validation (config this) p q b = (trv, Inr (p', q', b')) \<longrightarrow>
        prefix (tr0 @ trv @ tr) (fst (handler this fn request context))"
  proof (intro allI impI)
    fix tr0 p q b trv p' q' b'
    assume a: "extraction request context = (tr0, Inr (p, q, b)) \<and>
        validation (config this) p q b = (trv, Inr (p', q', b'))"
    then have e: "extraction request context = (tr0, Inr (p, q, b))"
      and v: "validation (config this) p q b = (trv, Inr (p', q', b'))"
      by simp_all
    have "prefix (tr0 @ trv @ tr) (fst (try_block this fn request context))"
      unfolding tr using e v by (rule try_block_prefix_middlewares)
    then show "prefix (tr0 @ trv @ tr) (fst (handler this fn request context))"
      using handler_prefix_try_block by (rule prefix_order.trans)
  qed
  have c10: "\<forall>hc. CallHandler hc \<in> set (fst (handler this fn request context)) \<longrightarrow>
        r = Inr (ctx_data hc)"
  proof (intro allI impI)
    fix hc
    assume "CallHandler hc \<in> set (fst (handler this fn request context))"
    then have m: "CallHandler hc \<in> set (fst (try_block this fn request context))"
      by (simp add: CallHandler_in_handler)
    show "r = Inr (ctx_data hc)"
    proof (cases rule: try_block_cases [of request "context" this fn])
      case (extraction_throws tr0 e)
      with m extraction_no_call(1) [of hc request "context"] show ?thesis by simp
    next
      case (validation_throws tr0 p q b trv e)
      with m extraction_no_call(1) [of hc request "context"]
        validation_no_call(1) [of hc "config this" p q b]
      show ?thesis by simp
    next
      case (middleware_throws tr0 p q b trv p' q' b' trm e)
      with m extraction_no_call(1) [of hc request "context"]
        validation_no_call(1) [of hc "config this" p q b]
        run_middlewares_no_call(1) [of hc "middlewares this" request 0 "[]"]
      show ?thesis by simp
    next
      case (handler_called tr0 p q b trv p' q' b' trm d)
      with m extraction_no_call(1) [of hc request "context"]
        validation_no_call(1) [of hc "config this" p q b]
        run_middlewares_no_call(1) [of hc "middlewares this" request 0 "[]"] assms
      show ?thesis by auto
    qed
  qed
  have c11: "\<forall>c fragment. distinct (map fst fragment) \<longrightarrow>
        map_of (spread c fragment) = map_of c ++ map_of fragment"
    by (simp add: map_of_spread_distinct)
  show ?thesis
    by (intro conjI c1 c2 c3 c4 c5 c6 c7 c8 c9 c10 c11)
qed

theorem middleware_chain_merges_in_order_witness:
  "run_middlewares [middleware_x1, middleware_x2_y3] get_request 0 [] =
     ([CallMiddleware 0 [], CallMiddleware 1 [(''x'', JNum 1)]],
      Inr [(''x'', JNum 2), (''y'', JNum 3)]) \<and>
   context_before [middleware_x1, middleware_x2_y3] get_request 1 = [(''x'', JNum 1)] \<and>
   context_before [middleware_x1, middleware_x2_y3] get_request 2 =
     [(''x'', JNum 2), (''y'', JNum 3)] \<and>
   fst (handler (plain_route\<lparr>middlewares := [middleware_x1, middleware_x2_y3]\<rparr>)
          echo_handler get_request None) =
     [CallMiddleware 0 [], CallMiddleware 1 [(''x'', JNum 1)],
      CallHandler \<lparr>ctx_params = JObj [], ctx_query = JObj [(''search'', JStr ''test'')],
                   ctx_body = JObj [], ctx_data = [(''x'', JNum 2), (''y'', JNum 3)]\<rparr>]"
proof -
  have r: "run_middlewares
      (middlewares (plain_route\<lparr>middlewares := [middleware_x1, middleware_x2_y3]\<rparr>))
      get_request 0 [] =
     ([CallMiddleware 0 [], CallMiddleware 1 [(''x'', JNum 1)]],
      Inr [(''x'', JNum 2), (''y'', JNum 3)])"
    by (simp add: middleware_x1_def middleware_x2_y3_def spread_def)
  have n: "(\<forall>n<Suc (Suc 0). P n) \<longleftrightarrow> P 0 \<and> P (Suc 0)" for P :: "nat \<Rightarrow> bool"
    by (auto simp: less_Suc_eq)
  have h: "fst (handler (plain_route\<lparr>middlewares := [middleware_x1, middleware_x2_y3]\<rparr>)
          echo_handler get_request None) =
     [CallMiddleware 0 [], CallMiddleware 1 [(''x'', JNum 1)],
      CallHandler \<lparr>ctx_params = JObj [], ctx_query = JObj [(''search'', JStr ''test'')],
                   ctx_body = JObj [], ctx_data = [(''x'', JNum 2), (''y'', JNum 3)]\<rparr>]"
    by (simp add: route_defs plain_route_def no_schemas_def get_request_def echo_handler_def
          middleware_x1_def middleware_x2_y3_def)
  from middleware_chain_merges_in_order [OF r, of None echo_handler]
  have "(\<forall>n<Suc (Suc 0). [CallMiddleware 0 [], CallMiddleware 1 [(''x'', JNum 1)]] ! n =
          CallMiddleware n (context_before [middleware_x1, middleware_x2_y3] get_request n))"
    and "[(''x'', JNum 2), (''y'', JNum 3)] =
          context_before [middleware_x1, middleware_x2_y3] get_request (Suc (Suc 0))"
    by (simp_all add: numeral_2_eq_2)
  then show ?thesis
    using r h by (simp add: n numeral_2_eq_2)
qed

text \<open>
  Claim C5 as stated fails for a middleware that writes to the context object it is
  given: the first middleware below returns the empty fragment, so that the merges of the
  fragments before the second middleware make the empty object, yet the second middleware
  is called on \<^verbatim>\<open>{seen:true}\<close> and the handler's data holds \<^verbatim>\<open>seen\<close> as well.
\<close>

theorem context_written_in_place:
  "snd (middleware_writes_seen get_request []) = Inr [] \<and>
   spread [] [] = [] \<and>
   fst (handler (plain_route\<lparr>middlewares := [middleware_writes_seen, middleware_x1]\<rparr>)
          echo_handler get_request None) =
     [CallMiddleware 0 [], CallMiddleware 1 [(''seen'', JBool True)],
      CallHandler \<lparr>ctx_params = JObj [], ctx_query = JObj [(''search'', JStr ''test'')],
                   ctx_body = JObj [],
                   ctx_data = [(''seen'', JBool True), (''x'', JNum 1)]\<rparr>]"
  by (simp add: route_defs plain_route_def no_schemas_def get_request_def echo_handler_def
        middleware_x1_def middleware_writes_seen_def)

section \<open>Claim C6: parsing the body\<close>



section \<open>Claim C7: the response\<close>

text \<open>
  Claim C7, as the code has it. Whenever the run calls the user's handler: if the handler
  returns a \<^verbatim>\<open>Response\<close>, the route resolves to that very response, status and headers
  included; if it returns another value that \<^verbatim>\<open>JSON.stringify\<close> serialises, the route
  resolves to a response with status 200, the \<^verbatim>\<open>JSON.stringify\<close> of the value as body,
  and the header \<^verbatim>\<open>Content-Type: application/json\<close>; if it returns a value that
  \<^verbatim>\<open>JSON.stringify\<close> refuses, the \<^verbatim>\<open>TypeError\<close> is thrown inside the \<^verbatim>\<open>try\<close> block
  and handled as a server error.
\<close>

theorem response_normalization:
  assumes "CallHandler hc \<in> set (fst (handler this fn request context))"
  shows "(fn request hc = ReturnsResponse r \<longrightarrow>
            snd (handler this fn request context) = Inr r) \<and>
         (fn request hc = ReturnsValue (Plain v) \<longrightarrow>
            snd (handler this fn request context) =
              Inr \<lparr>status = 200, body_text = JSON_stringify v,
                   headers = [(''Content-Type'', ''application/json'')]\<rparr>) \<and>
         (fn request hc = ReturnsValue Unserialisable \<longrightarrow>
            handled_as_server_error this (handler this fn request context)
              (OtherError ''TypeError''))"
proof -
  have "CallHandler hc \<in> set (fst (try_block this fn request context))"
    using handler_fst [OF assms] by auto
  then have t: "snd (try_block this fn request context) = snd (call_handler fn request hc)"
    by (rule try_block_called)
  show ?thesis
  proof (intro conjI impI)
    assume "fn request hc = ReturnsResponse r"
    with t have "snd (try_block this fn request context) = Inr r"
      by (simp add: call_handler_def)
    then show "snd (handler this fn request context) = Inr r"
      by (rule handler_snd_Inr)
  next
    assume "fn request hc = ReturnsValue (Plain v)"
    with t have "snd (try_block this fn request context) =
         Inr \<lparr>status = 200, body_text = JSON_stringify v,
              headers = [(''Content-Type'', ''application/json'')]\<rparr>"
      by (simp add: call_handler_def new_Response_def)
    then show "snd (handler this fn request context) =
        Inr \<lparr>status = 200, body_text = JSON_stringify v,
             headers = [(''Content-Type'', ''application/json'')]\<rparr>"
      by (rule handler_snd_Inr)
  next
    assume "fn request hc = ReturnsValue Unserialisable"
    with t have "snd (try_block this fn request context) = Inl (OtherError ''TypeError'')"
      by (simp add: call_handler_def)
    then show "handled_as_server_error this (handler this fn request context)
        (OtherError ''TypeError'')"
      by (rule handler_of_try_other)
  qed
qed

theorem response_normalization_witness:
  "snd (handler plain_route response_handler get_request None) =
     Inr \<lparr>status = 201, body_text = Some ''{\"custom\":\"response\"}'',
          headers = [(''X-Custom-Header'', ''test'')]\<rparr> \<and>
   snd (handler plain_route echo_handler get_request None) =
     Inr \<lparr>status = 200,
          body_text = Some ''{\"params\":{},\"query\":{\"search\":\"test\"},\"body\":{},\"data\":{}}'',
          headers = [(''Content-Type'', ''application/json'')]\<rparr> \<and>
   snd (handler (plain_route\<lparr>handleServerError := Some custom_handleServerError\<rparr>)
          bigint_handler get_request None) =
     Inr \<lparr>status = 418, body_text = Some ''{\"message\":\"Something went wrong\"}'',
          headers = []\<rparr>"
proof -
  let ?hc = "\<lparr>ctx_params = JObj [], ctx_query = JObj [(''search'', JStr ''test'')],
               ctx_body = JObj [], ctx_data = []\<rparr>"
  let ?custom = "plain_route\<lparr>handleServerError := Some custom_handleServerError\<rparr>"
  have m1: "CallHandler ?hc \<in> set (fst (handler plain_route response_handler get_request None))"
    by (simp add: route_defs plain_route_def no_schemas_def get_request_def response_handler_def
          echo_handler_def created_response_def)
  have m2: "CallHandler ?hc \<in> set (fst (handler plain_route echo_handler get_request None))"
    by (simp add: route_defs plain_route_def no_schemas_def get_request_def response_handler_def
          echo_handler_def created_response_def)
  have m3: "CallHandler ?hc \<in> set (fst (handler ?custom bigint_handler get_request None))"
    by (simp add: route_defs plain_route_def no_schemas_def get_request_def bigint_handler_def)
  have s: "JSON_stringify (JObj [(''params'', JObj []), (''query'', JObj [(''search'', JStr ''test'')]),
                         (''body'', JObj []), (''data'', JObj [])]) =
      Some ''{\"params\":{},\"query\":{\"search\":\"test\"},\"body\":{},\"data\":{}}''"
    by (simp add: JSON_stringify_def QuoteJSONString_def quote_char_def)
  show ?thesis
    using response_normalization [OF m1, of created_response]
      response_normalization [OF m2, where v = "JObj [(''params'', JObj []),
         (''query'', JObj [(''search'', JStr ''test'')]), (''body'', JObj []), (''data'', JObj [])]"]
      response_normalization [OF m3]
      s
    by (simp add: response_handler_def echo_handler_def created_response_def bigint_handler_def
          handled_as_server_error_def plain_route_def custom_handleServerError_def)
qed

text \<open>
  Claim C7 as stated fails for a handler that returns a value holding a \<^verbatim>\<open>BigInt\<close>: the
  value is not a \<^verbatim>\<open>Response\<close>, and the route answers with the default 500 response, not
  with status 200.
\<close>

theorem unserialisable_value_returned:
  "bigint_handler get_request
     \<lparr>ctx_params = JObj [], ctx_query = JObj [(''search'', JStr ''test'')],
      ctx_body = JObj [], ctx_data = []\<rparr> = ReturnsValue Unserialisable \<and>
   handler plain_route bigint_handler get_request None =
     ([CallHandler \<lparr>ctx_params = JObj [], ctx_query = JObj [(''search'', JStr ''test'')],
                    ctx_body = JObj [], ctx_data = []\<rparr>],
      Inr \<lparr>status = 500, body_text = Some ''{\"message\":\"Internal server error\"}'',
           headers = []\<rparr>)"
  by (simp add: route_defs plain_route_def no_schemas_def get_request_def bigint_handler_def
        default_error internal_server_error_response_def)

section \<open>Claim C8: chaining\<close>

text \<open>
  Claim C8. On a builder \<open>this\<close> of the store, each of \<^verbatim>\<open>params\<close>, \<^verbatim>\<open>query\<close>,
  \<^verbatim>\<open>body\<close> and \<^verbatim>\<open>use\<close> returns a reference that was not in the store before; the
  store is only extended, so that every builder of the old store, \<open>this\<close> included, reads
  as before; and the new builder reads as \<open>this\<close> with the one schema replaced, or with
  the middleware appended to its chain, everything else unchanged.
\<close>

theorem chaining_returns_new_builder:
  assumes "builder_of h this = Some b"
  shows
    "(\<exists>this' h'. params schema this h = Some (this', h') \<and> length h \<le> this' \<and> prefix h h' \<and>
        (\<forall>r x. builder_of h r = Some x \<longrightarrow> builder_of h' r = Some x) \<and>
        builder_of h' this' = Some (b\<lparr>config := (config b)\<lparr>paramsSchema := Some schema\<rparr>\<rparr>)) \<and>
     (\<exists>this' h'. query schema this h = Some (this', h') \<and> length h \<le> this' \<and> prefix h h' \<and>
        (\<forall>r x. builder_of h r = Some x \<longrightarrow> builder_of h' r = Some x) \<and>
        builder_of h' this' = Some (b\<lparr>config := (config b)\<lparr>querySchema := Some schema\<rparr>\<rparr>)) \<and>
     (\<exists>this' h'. body schema this h = Some (this', h') \<and> length h \<le> this' \<and> prefix h h' \<and>
        (\<forall>r x. builder_of h r = Some x \<longrightarrow> builder_of h' r = Some x) \<and>
        builder_of h' this' = Some (b\<lparr>config := (config b)\<lparr>bodySchema := Some schema\<rparr>\<rparr>)) \<and>
     (\<exists>this' h'. use middleware this h = Some (this', h') \<and> length h \<le> this' \<and> prefix h h' \<and>
        (\<forall>r x. builder_of h r = Some x \<longrightarrow> builder_of h' r = Some x) \<and>
        builder_of h' this' = Some (b\<lparr>middlewares := middlewares b @ [middleware]\<rparr>))"
proof -
  from assms obtain obj where obj: "get_builder h this = Some obj"
    "get_config h (config_ref obj) = Some (config b)"
    "get_array h (middlewares_ref obj) = Some (middlewares b)"
    "handleServerError_field obj = handleServerError b"
    by (auto simp: builder_of_Some)
  have old: "\<forall>r x. builder_of h r = Some x \<longrightarrow> builder_of (h @ h2) r = Some x" for h2
    by (simp add: builder_of_append)
  have schema_case: "\<exists>this' h'. Some (RouteHandlerBuilder (Some (length h)) (Some (middlewares_ref obj))
           (handleServerError_field obj) (h @ [ConfigCell cfg])) = Some (this', h') \<and>
        length h \<le> this' \<and> prefix h h' \<and>
        (\<forall>r x. builder_of h r = Some x \<longrightarrow> builder_of h' r = Some x) \<and>
        builder_of h' this' = Some (b\<lparr>config := cfg\<rparr>)" for cfg
    using set_schema_new_builder [OF assms, of cfg] obj(1) old by auto
  have p: "params schema this h = Some (RouteHandlerBuilder (Some (length h))
      (Some (middlewares_ref obj)) (handleServerError_field obj)
      (h @ [ConfigCell ((config b)\<lparr>paramsSchema := Some schema\<rparr>)]))"
    by (simp add: params_def obj alloc_def)
  have q: "query schema this h = Some (RouteHandlerBuilder (Some (length h))
      (Some (middlewares_ref obj)) (handleServerError_field obj)
      (h @ [ConfigCell ((config b)\<lparr>querySchema := Some schema\<rparr>)]))"
    by (simp add: query_def obj alloc_def)
  have bd: "body schema this h = Some (RouteHandlerBuilder (Some (length h))
      (Some (middlewares_ref obj)) (handleServerError_field obj)
      (h @ [ConfigCell ((config b)\<lparr>bodySchema := Some schema\<rparr>)]))"
    by (simp add: body_def obj alloc_def)
  have c: "get_config (h @ [ArrayCell (middlewares b @ [middleware])]) (config_ref obj) =
      Some (config b)"
    using obj(2) by (rule get_config_append)
  have m: "get_array (h @ [ArrayCell (middlewares b @ [middleware])]) (length h) =
      Some (middlewares b @ [middleware])"
    by (rule get_last)
  have u: "use middleware this h = Some (RouteHandlerBuilder (Some (config_ref obj))
      (Some (length h)) (handleServerError_field obj)
      (h @ [ArrayCell (middlewares b @ [middleware])]))"
    by (simp add: use_def obj alloc_def)
  have use_case: "\<exists>this' h'. use middleware this h = Some (this', h') \<and> length h \<le> this' \<and>
        prefix h h' \<and>
        (\<forall>r x. builder_of h r = Some x \<longrightarrow> builder_of h' r = Some x) \<and>
        builder_of h' this' = Some (b\<lparr>middlewares := middlewares b @ [middleware]\<rparr>)"
    using RouteHandlerBuilder_given [OF c m, of "handleServerError_field obj"] obj(4) old u
    by (cases b) auto
  show ?thesis
    using schema_case [of "(config b)\<lparr>paramsSchema := Some schema\<rparr>"]
      schema_case [of "(config b)\<lparr>querySchema := Some schema\<rparr>"]
      schema_case [of "(config b)\<lparr>bodySchema := Some schema\<rparr>"] use_case
    unfolding p q bd by blast
qed

theorem chaining_returns_new_builder_witness:
  "builder_of example_store 2 =
     Some \<lparr>config = \<lparr>paramsSchema = None, querySchema = None, bodySchema = None\<rparr>,
           middlewares = [], handleServerError = Some custom_handleServerError\<rparr> \<and>
   (\<exists>this' h'. use middleware_x1 2 example_store = Some (this', h') \<and> 3 \<le> this' \<and>
      builder_of h' 2 =
        Some \<lparr>config = \<lparr>paramsSchema = None, querySchema = None, bodySchema = None\<rparr>,
              middlewares = [], handleServerError = Some custom_handleServerError\<rparr> \<and>
      builder_of h' this' =
        Some \<lparr>config = \<lparr>paramsSchema = None, querySchema = None, bodySchema = None\<rparr>,
              middlewares = [middleware_x1],
              handleServerError = Some custom_handleServerError\<rparr>) \<and>
   (\<exists>this' h'. params (string_field_schema ''id'') 2 example_store = Some (this', h') \<and>
      3 \<le> this' \<and>
      builder_of h' 2 =
        Some \<lparr>config = \<lparr>paramsSchema = None, querySchema = None, bodySchema = None\<rparr>,
              middlewares = [], handleServerError = Some custom_handleServerError\<rparr> \<and>
      builder_of h' this' =
        Some \<lparr>config = \<lparr>paramsSchema = Some (string_field_schema ''id''), querySchema = None,
                         bodySchema = None\<rparr>,
              middlewares = [], handleServerError = Some custom_handleServerError\<rparr>)"
proof -
  have s: "example_store =
      [ConfigCell \<lparr>paramsSchema = None, querySchema = None, bodySchema = None\<rparr>, ArrayCell [],
       BuilderCell \<lparr>config_ref = 0, middlewares_ref = 1,
                    handleServerError_field = Some custom_handleServerError\<rparr>]"
    by (simp add: example_store_def RouteHandlerBuilder_def alloc_def)
  have b: "builder_of example_store 2 =
     Some \<lparr>config = \<lparr>paramsSchema = None, querySchema = None, bodySchema = None\<rparr>,
           middlewares = [], handleServerError = Some custom_handleServerError\<rparr>"
    by (simp add: s builder_of_def get_builder_def get_config_def get_array_def)
  have l: "length example_store = 3"
    by (simp add: s)
  show ?thesis
    using chaining_returns_new_builder [OF b, of "string_field_schema ''id''" middleware_x1] b l
    by simp blast
qed

section \<open>Claim C9: a middleware that throws\<close>

text \<open>
  Claim C9, as the code has it. When a middleware that the run calls throws, the handler
  is not called and no middleware after it is called; what it threw goes through the
  \<^verbatim>\<open>catch\<close> clause as any thrown value does: to \<^verbatim>\<open>handleServerError\<close> or the default
  500 response, unless it is an instance of \<^verbatim>\<open>InternalRouteHandlerError\<close>, which is
  answered with status 400 and its own message.
\<close>

theorem middleware_exception_aborts:
  assumes "CallMiddleware k c \<in> set (fst (handler this fn request context))"
    and "snd ((middlewares this ! k) request c) = Inl e"
  shows "(\<forall>hc. CallHandler hc \<notin> set (fst (handler this fn request context))) \<and>
     (\<forall>j c'. CallMiddleware j c' \<in> set (fst (handler this fn request context)) \<longrightarrow> j \<le> k) \<and>
     (\<forall>x. e = OtherError x \<longrightarrow>
        snd (handler this fn request context) =
          (case handleServerError this of
             Some f \<Rightarrow> f e
           | None \<Rightarrow> Inr internal_server_error_response)) \<and>
     (\<forall>m. e = InternalRouteHandlerError m \<longrightarrow>
        snd (handler this fn request context) =
          Inr \<lparr>status = 400, body_text = Some m, headers = []\<rparr>)"
proof -
  have m: "CallMiddleware k c \<in> set (fst (try_block this fn request context))"
    using assms(1) by (simp add: CallMiddleware_in_handler)
  show ?thesis
  proof (cases rule: try_block_cases [of request "context" this fn])
    case (extraction_throws tr e')
    with m extraction_no_call(2) [of k c request "context"] show ?thesis by simp
  next
    case (validation_throws tr p q b trv e')
    with m extraction_no_call(2) [of k c request "context"]
      validation_no_call(2) [of k c "config this" p q b]
    show ?thesis by simp
  next
    case (middleware_throws tr p q b trv p' q' b' trm e')
    with m extraction_no_call(2) [of k c request "context"]
      validation_no_call(2) [of k c "config this" p q b]
    have "CallMiddleware k c \<in> set (fst (run_middlewares (middlewares this) request 0 []))"
      by simp
    from run_middlewares_throws [OF this] assms(2) middleware_throws(3)
    have e: "e' = e" and le: "\<forall>j c''. CallMiddleware j c'' \<in> set trm \<longrightarrow> j \<le> k"
      by simp_all
    have t: "snd (try_block this fn request context) = Inl e"
      using middleware_throws(4) e by simp
    have "\<forall>hc. CallHandler hc \<notin> set (fst (try_block this fn request context))"
      using middleware_throws extraction_no_call(1) [of _ request "context"]
        validation_no_call(1) [of _ "config this" p q b]
        run_middlewares_no_call(1) [of _ "middlewares this" request 0 "[]"]
      by simp
    moreover have "\<forall>j c'. CallMiddleware j c' \<in> set (fst (try_block this fn request context))
        \<longrightarrow> j \<le> k"
      using middleware_throws le extraction_no_call(2) [of _ _ request "context"]
        validation_no_call(2) [of _ _ "config this" p q b]
      by simp
    moreover have "snd (handler this fn request context) =
          (case handleServerError this of
             Some f \<Rightarrow> f e
           | None \<Rightarrow> Inr internal_server_error_response)" if "e = OtherError x" for x
      using t that handler_snd_other [of this fn request "context" x]
      by (simp split: option.splits)
    moreover have "snd (handler this fn request context) =
          Inr \<lparr>status = 400, body_text = Some m, headers = []\<rparr>"
      if "e = InternalRouteHandlerError m" for m
      using t that handler_snd_internal [of this fn request "context" m]
      by (simp add: new_Response_def)
    ultimately show ?thesis
      by (simp add: CallHandler_in_handler CallMiddleware_in_handler)
  next
    case (handler_called tr p q b trv p' q' b' trm d)
    with m extraction_no_call(2) [of k c request "context"]
      validation_no_call(2) [of k c "config this" p q b]
    have "CallMiddleware k c \<in> set (fst (run_middlewares (middlewares this) request 0 []))"
      by simp
    from run_middlewares_throws [OF this] assms(2) handler_called(3)
    show ?thesis by simp
  qed
qed

theorem middleware_exception_aborts_witness:
  "fst (handler (plain_route\<lparr>middlewares := [middleware_x1, middleware_throws, middleware_x2_y3]\<rparr>)
       echo_handler get_request None) =
     [CallMiddleware 0 [], CallMiddleware 1 [(''x'', JNum 1)]] \<and>
   snd (handler (plain_route\<lparr>middlewares := [middleware_x1, middleware_throws, middleware_x2_y3]\<rparr>)
       echo_handler get_request None) = Inr internal_server_error_response"
proof -
  let ?route = "plain_route\<lparr>middlewares := [middleware_x1, middleware_throws, middleware_x2_y3]\<rparr>"
  have f: "fst (handler ?route echo_handler get_request None) =
     [CallMiddleware 0 [], CallMiddleware 1 [(''x'', JNum 1)]]"
    by (simp add: route_defs plain_route_def no_schemas_def get_request_def middleware_x1_def middleware_throws_def middleware_x2_y3_def echo_handler_def)
  then have m: "CallMiddleware 1 [(''x'', JNum 1)] \<in> set (fst (handler ?route echo_handler get_request None))"
    by simp
  have t: "snd ((middlewares ?route ! 1) get_request [(''x'', JNum 1)]) =
      Inl (OtherError ''Unauthorized'')"
    by (simp add: middleware_throws_def)
  show ?thesis
    using middleware_exception_aborts [OF m t] f
    by (simp add: plain_route_def)
qed

text \<open>
  Claim C9 as stated fails for a middleware that throws an instance of the exported class
  \<^verbatim>\<open>InternalRouteHandlerError\<close>: it is answered by the branch of the validation errors,
  with status 400, and not by the configured \<^verbatim>\<open>handleServerError\<close>.
\<close>

theorem internal_error_thrown_by_middleware:
  "handler (plain_route\<lparr>middlewares := [middleware_throws_internal],
                        handleServerError := Some custom_handleServerError\<rparr>)
       echo_handler get_request None =
     ([CallMiddleware 0 []], Inr \<lparr>status = 400, body_text = Some ''denied'', headers = []\<rparr>)"
  by (simp add: route_defs plain_route_def no_schemas_def get_request_def middleware_throws_internal_def custom_handleServerError_def echo_handler_def new_Response_def)

section \<open>Claim C10: requests without a body\<close>

text \<open>
  Claim C10, as the code has it. For a \<^verbatim>\<open>GET\<close> or \<^verbatim>\<open>DELETE\<close> request, the value
  given to the body schema is the empty object; the body given to the handler is what the
  body schema makes of the empty object, or the empty object itself without a body schema;
  and when the params promise resolves, the params and query schemas accept, and the body
  schema rejects the empty object, the response is the 400 \<^verbatim>\<open>Invalid body\<close>.
\<close>

theorem get_delete_body_is_empty_object:
  assumes "method request = ''GET'' \<or> method request = ''DELETE''"
  shows "(\<forall>v. SafeParse Body v \<in> set (fst (handler this fn request context)) \<longrightarrow> v = JObj []) \<and>
     (\<forall>hc. CallHandler hc \<in> set (fst (handler this fn request context)) \<longrightarrow>
        accepts (bodySchema (config this)) (JObj []) (ctx_body hc)) \<and>
     (\<forall>tr p p' q' issues.
        await_params context = (tr, Inr p) \<and>
        accepts (paramsSchema (config this)) p p' \<and>
        accepts (querySchema (config this)) (parse_query request) q' \<and>
        rejects (bodySchema (config this)) (JObj []) issues \<longrightarrow>
        snd (handler this fn request context) =
          Inr (validation_error_response ''Invalid body'' issues))"
proof (intro conjI allI impI)
  fix v
  assume "SafeParse Body v \<in> set (fst (handler this fn request context))"
  then have m: "SafeParse Body v \<in> set (fst (try_block this fn request context))"
    by (simp add: SafeParse_in_handler)
  show "v = JObj []"
  proof (cases rule: try_block_cases [of request "context" this fn])
    case (extraction_throws tr e)
    with m extraction_no_call(3) [of Body v request "context"] show ?thesis by simp
  next
    case (validation_throws tr p q b trv e)
    with m extraction_no_call(3) [of Body v request "context"]
      validation_body_value [of v "config this" p q b]
      extraction_body_skipped [OF assms, of "context" tr p q b]
    show ?thesis by simp
  next
    case (middleware_throws tr p q b trv p' q' b' trm e)
    with m extraction_no_call(3) [of Body v request "context"]
      validation_body_value [of v "config this" p q b]
      extraction_body_skipped [OF assms, of "context" tr p q b]
      run_middlewares_no_call(2) [of Body v "middlewares this" request 0 "[]"]
    show ?thesis by simp
  next
    case (handler_called tr p q b trv p' q' b' trm d)
    with m extraction_no_call(3) [of Body v request "context"]
      validation_body_value [of v "config this" p q b]
      extraction_body_skipped [OF assms, of "context" tr p q b]
      run_middlewares_no_call(2) [of Body v "middlewares this" request 0 "[]"]
    show ?thesis by simp
  qed
next
  fix hc
  assume "CallHandler hc \<in> set (fst (handler this fn request context))"
  then have m: "CallHandler hc \<in> set (fst (try_block this fn request context))"
    by (simp add: CallHandler_in_handler)
  show "accepts (bodySchema (config this)) (JObj []) (ctx_body hc)"
  proof (cases rule: try_block_cases [of request "context" this fn])
    case (extraction_throws tr e)
    with m extraction_no_call(1) [of hc request "context"] show ?thesis by simp
  next
    case (validation_throws tr p q b trv e)
    with m extraction_no_call(1) [of hc request "context"]
      validation_no_call(1) [of hc "config this" p q b]
    show ?thesis by simp
  next
    case (middleware_throws tr p q b trv p' q' b' trm e)
    with m extraction_no_call(1) [of hc request "context"]
      validation_no_call(1) [of hc "config this" p q b]
      run_middlewares_no_call(1) [of hc "middlewares this" request 0 "[]"]
    show ?thesis by simp
  next
    case (handler_called tr p q b trv p' q' b' trm d)
    with m extraction_no_call(1) [of hc request "context"]
      validation_no_call(1) [of hc "config this" p q b]
      run_middlewares_no_call(1) [of hc "middlewares this" request 0 "[]"]
    have "ctx_body hc = b'" by auto
    with validation_Inr_accepts [OF handler_called(2)]
      extraction_body_skipped [OF assms handler_called(1)]
    show ?thesis by simp
  qed
next
  fix tr p p' q' issues
  assume a: "await_params context = (tr, Inr p) \<and>
        accepts (paramsSchema (config this)) p p' \<and>
        accepts (querySchema (config this)) (parse_query request) q' \<and>
        rejects (bodySchema (config this)) (JObj []) issues"
  have pb: "parse_body request = ([], Inr (JObj []))"
    using assms by (auto simp: parse_body_def)
  have ex: "extraction request context = (tr, Inr (p, parse_query request, JObj []))"
    using a pb by (simp add: extraction_def)
  have v: "snd (validation (config this) p (parse_query request) (JObj [])) =
     Inl (InternalRouteHandlerError (error_message (JSON_stringify
        (JObj [(''message'', JStr ''Invalid body''), (''errors'', JArr issues)]))))"
    using a validation_body_rejected [of "config this" p p' "parse_query request" q' "JObj []" issues]
    by simp
  have "snd (try_block this fn request context) =
     Inl (InternalRouteHandlerError (error_message (JSON_stringify
        (JObj [(''message'', JStr ''Invalid body''), (''errors'', JArr issues)]))))"
    using v
    by (cases "validation (config this) p (parse_query request) (JObj [])")
       (simp add: try_block_def ex)
  then show "snd (handler this fn request context) =
          Inr (validation_error_response ''Invalid body'' issues)"
    using handler_snd_internal [of this fn request "context"]
    by (simp add: thrown_validation_error)
qed

theorem get_delete_body_is_empty_object_witness:
  "snd (handler all_schemas_route echo_handler get_request valid_params) =
     Inr (validation_error_response ''Invalid body'' [issue ''field'']) \<and>
   snd (handler all_schemas_route echo_handler delete_request valid_params) =
     Inr (validation_error_response ''Invalid body'' [issue ''field''])"
proof -
  have g: "method get_request = ''GET'' \<or> method get_request = ''DELETE''"
    "method delete_request = ''GET'' \<or> method delete_request = ''DELETE''"
    by (simp_all add: get_request_def delete_request_def)
  have a: "await_params valid_params =
      ([AwaitParams], Inr (JObj [(''id'', JStr ''550e8400''), (''other'', JNull)]))"
    by (simp add: await_params_def valid_params_def)
  have p: "accepts (paramsSchema (config all_schemas_route))
      (JObj [(''id'', JStr ''550e8400''), (''other'', JNull)]) (JObj [(''id'', JStr ''550e8400'')])"
    by (simp add: accepts_def all_schemas_route_def all_schemas_def string_field_schema_def get_request_def delete_request_def valid_params_def)
  have q: "accepts (querySchema (config all_schemas_route)) (parse_query get_request)
      (JObj [(''search'', JStr ''test'')])"
    "accepts (querySchema (config all_schemas_route)) (parse_query delete_request)
      (JObj [(''search'', JStr ''test'')])"
    by (simp_all add: accepts_def all_schemas_route_def all_schemas_def string_field_schema_def get_request_def delete_request_def valid_params_def parse_query_def fromEntries_def spread_def)
  have r: "rejects (bodySchema (config all_schemas_route)) (JObj []) [issue ''field'']"
    by (simp add: rejects_def all_schemas_route_def all_schemas_def string_field_schema_def get_request_def delete_request_def valid_params_def)
  show ?thesis
    using get_delete_body_is_empty_object [OF g(1), of all_schemas_route echo_handler valid_params]
      get_delete_body_is_empty_object [OF g(2), of all_schemas_route echo_handler valid_params]
      a p q r
    by blast
qed

text \<open>
  Claim C10 as stated fails twice: a body schema with a default gives the handler of a
  \<^verbatim>\<open>GET\<close> request a body that is not the empty object, and a \<^verbatim>\<open>GET\<close> request
  whose params are rejected is answered \<^verbatim>\<open>Invalid params\<close> although the body schema
  rejects the empty object.
\<close>

theorem get_body_schema_output_and_params_first:
  "fst (handler (plain_route\<lparr>config := no_schemas\<lparr>bodySchema :=
          Some (default_field_schema ''page'' ''1'')\<rparr>\<rparr>) echo_handler get_request None) =
     [SafeParse Body (JObj []),
      CallHandler \<lparr>ctx_params = JObj [], ctx_query = JObj [(''search'', JStr ''test'')],
                   ctx_body = JObj [(''page'', JStr ''1'')], ctx_data = []\<rparr>] \<and>
   rejects (bodySchema (config all_schemas_route)) (JObj []) [issue ''field''] \<and>
   handler all_schemas_route echo_handler get_request invalid_params =
     ([AwaitParams, SafeParse Params (JObj [(''id'', JNum 7)])],
      Inr (validation_error_response ''Invalid params'' [issue ''id'']))"
  by (simp add: route_defs plain_route_def no_schemas_def default_field_schema_def get_request_def all_schemas_route_def all_schemas_def string_field_schema_def invalid_params_def echo_handler_def rejects_def thrown_validation_error)

end
